theory Spec2Isabelle
  imports Complex_Main
begin

section \<open>JavaScript numbers\<close>

text \<open>
  A JavaScript number is an IEEE 754 binary64 value. A finite one is modelled by the
  rational it denotes, \<open>Infinity\<close> by \<open>2^1024\<close> (the least power of two that no finite
  double reaches, so that \<open><=\<close> on the model is the order of the doubles) and
  \<open>-Infinity\<close> by its negation. NaN has no model: \<open>Infinity + -Infinity\<close> is the one
  sum that \<open>jsAdd\<close> below does not give as JavaScript does, and the numbers this program
  adds are not negative (\<open>min: 0\<close> in the schemas).
\<close>

type_synonym number = rat

text \<open>The number of binary digits of a natural number.\<close>

fun bitLength :: "nat \<Rightarrow> nat" where
  "bitLength n = (if n = 0 then 0 else bitLength (n div 2) + 1)"

declare bitLength.simps [simp del]

text \<open>\<open>2^t\<close> for an integer \<open>t\<close>.\<close>

definition pow2 :: "int \<Rightarrow> rat" where
  "pow2 t = (if 0 \<le> t then 2 ^ nat t else 1 / 2 ^ nat (- t))"

text \<open>The binary exponent of a positive rational: the \<open>e\<close> with \<open>2^e <= a < 2^(e+1)\<close>
  (lemma \<open>floorLog2_bounds\<close>).\<close>

definition floorLog2 :: "rat \<Rightarrow> int" where
  "floorLog2 a =
     (if 1 \<le> a then int (bitLength (nat \<lfloor>a\<rfloor>)) - 1
      else if a * pow2 (int (bitLength (nat \<lfloor>1 / a\<rfloor>)) - 1) = 1
      then 1 - int (bitLength (nat \<lfloor>1 / a\<rfloor>))
      else - int (bitLength (nat \<lfloor>1 / a\<rfloor>)))"

text \<open>Rounding to the nearest integer, ties to the even one.\<close>

definition roundHalfEven :: "rat \<Rightarrow> int" where
  "roundHalfEven q =
     (if q - of_int \<lfloor>q\<rfloor> < 1/2 then \<lfloor>q\<rfloor>
      else if 1/2 < q - of_int \<lfloor>q\<rfloor> then \<lfloor>q\<rfloor> + 1
      else if even \<lfloor>q\<rfloor> then \<lfloor>q\<rfloor> else \<lfloor>q\<rfloor> + 1)"

definition POSITIVE_INFINITY :: number where
  "POSITIVE_INFINITY = 2 ^ 1024"

text \<open>The exponent of the last binary digit a double near \<open>a\<close> keeps: 53 significant
  digits, and no digit below \<open>2^-1074\<close> (the subnormal range).\<close>

definition quantum :: "rat \<Rightarrow> int" where
  "quantum a = max (floorLog2 a - 52) (- 1074)"

text \<open>A positive rational rounded to the nearest multiple of its quantum, ties to even.\<close>

definition roundMagnitude :: "rat \<Rightarrow> rat" where
  "roundMagnitude a = of_int (roundHalfEven (a / pow2 (quantum a))) * pow2 (quantum a)"

text \<open>The double nearest to a rational (round to nearest, ties to even; overflow gives
  an infinity).\<close>

definition roundDouble :: "rat \<Rightarrow> number" where
  "roundDouble x =
     (if x = 0 then 0
      else if POSITIVE_INFINITY \<le> roundMagnitude \<bar>x\<bar> then sgn x * POSITIVE_INFINITY
      else sgn x * roundMagnitude \<bar>x\<bar>)"

text \<open>The rationals that model a number.\<close>

definition isNumber :: "rat \<Rightarrow> bool" where
  "isNumber x \<longleftrightarrow> roundDouble x = x"

text \<open>The operator \<open>+\<close> on two numbers: the exact sum, rounded.\<close>

definition jsAdd :: "number \<Rightarrow> number \<Rightarrow> number" where
  "jsAdd x y =
     (if x = POSITIVE_INFINITY \<or> y = POSITIVE_INFINITY then POSITIVE_INFINITY
      else if x = - POSITIVE_INFINITY \<or> y = - POSITIVE_INFINITY then - POSITIVE_INFINITY
      else roundDouble (x + y))"

text \<open>\<open>xs.reduce((sum, x) => sum + x, 0)\<close>\<close>

definition jsSum :: "number list \<Rightarrow> number" where
  "jsSum xs = foldl jsAdd 0 xs"

section \<open>ObjectIds\<close>

text \<open>
  The \<open>_id\<close> of a document is an ObjectId: twelve bytes, whose string form
  (\<open>toString()\<close>) is 24 hexadecimal digits in lower case; an id is modelled by that
  string. Mongoose casts a string of a query on \<open>_id\<close> to an ObjectId: 24 hexadecimal
  digits in either case are accepted, any other string raises \<open>CastError\<close>.
\<close>

type_synonym oid = string

definition isHexDigit :: "char \<Rightarrow> bool" where
  "isHexDigit c \<longleftrightarrow> c \<in> set ''0123456789abcdefABCDEF''"

definition toLowerHex :: "char \<Rightarrow> char" where
  "toLowerHex c =
     (if c = CHR ''A'' then CHR ''a'' else if c = CHR ''B'' then CHR ''b''
      else if c = CHR ''C'' then CHR ''c'' else if c = CHR ''D'' then CHR ''d''
      else if c = CHR ''E'' then CHR ''e'' else if c = CHR ''F'' then CHR ''f'' else c)"

definition castObjectId :: "string \<Rightarrow> oid option" where
  "castObjectId s = (if length s = 24 \<and> list_all isHexDigit s then Some (map toLowerHex s) else None)"

section \<open>Data model\<close>

text \<open>
  A mover is found by the string form of its id. Weights, limits and mission counts
  are numbers; dates are points of a linear clock.
\<close>

type_synonym date = nat

text \<open>enum MagicMoverState \<open>{ RESTING = 'resting', LOADING = 'loading', ON_MISSION = 'on-mission' }\<close>\<close>

datatype MagicMoverState = RESTING | LOADING | ON_MISSION

text \<open>enum ActivityType; the constructors carry a prefix because \<open>LOADING\<close> is also a mover state.\<close>

datatype ActivityType = ACT_LOADING | ACT_UNLOADING | ACT_MISSION_STARTED | ACT_MISSION_ENDED

text \<open>interface IMagicItem (MagicItem.schema.ts)\<close>

record MagicItem =
  item_id :: oid
  item_name :: string
  weight :: number

text \<open>interface IMagicMover (MagicMover.schema.ts). The schema sets \<open>versionKey: false\<close>:
  a mover document has no version field. \<open>items\<close> has the type \<open>[String]\<close>: it holds the
  strings of the requests as they came, not ObjectIds.\<close>

record MagicMover =
  mover_id :: oid
  name :: "string option"
  weightLimit :: number
  currentWeight :: number
  state :: MagicMoverState
  items :: "string list"
  completedMissions :: number

text \<open>interface IActivityLog (ActivityLog.schema.ts); every field of \<open>details\<close> is optional
  (the prefix \<open>d_\<close> keeps the field names apart from the variables of the same names).\<close>

record ActivityDetails =
  d_previousState :: "MagicMoverState option"
  d_newState :: "MagicMoverState option"
  d_itemIds :: "string list option"
  d_itemCount :: "nat option"
  d_totalWeight :: "number option"
  d_completedMissions :: "number option"

record ActivityLog =
  moverId :: oid
  activityType :: ActivityType
  details :: ActivityDetails
  createdAt :: date

text \<open>The three collections, each in insertion order.\<close>

record Db =
  movers :: "MagicMover list"
  magicItems :: "MagicItem list"
  activityLogs :: "ActivityLog list"

text \<open>
  The source throws \<open>Error\<close> objects told apart by their message only; each message
  is one constructor, with the values the message interpolates as arguments.
\<close>

text \<open>Which validator rejected an input: the class-validator decorators of a DTO
  (run by \<open>validationMiddleware\<close>) or the Mongoose schema (run by \<open>save()\<close>).\<close>

datatype validator = ClassValidator | MongooseSchema

text \<open>
  \<^item> \<open>MoverNotFound\<close>: 'Magic Mover not found'
  \<^item> \<open>ItemsNotFound missing\<close>: 'Items not found: ...'
  \<^item> \<open>InvalidStateTransition from to action\<close>: 'Invalid state transition: Cannot action from .. to ..'
  \<^item> \<open>DuplicateItems duplicates\<close>: 'Duplicate items detected: ...'
  \<^item> \<open>WeightLimitExceeded current adding limit\<close>: 'Weight limit exceeded. Current: .., Adding: .., Limit: ..'
  \<^item> \<open>MustBeOnMission\<close>: 'Magic Mover must be on mission to end a mission'
  \<^item> \<open>ConcurrentModification\<close>: 'Concurrent modification detected. Please retry the operation.'
  \<^item> \<open>OperationFailed\<close>: 'Failed to ...' (the repository returned null)
  \<^item> \<open>CastError value\<close>: 'Cast to ObjectId failed for value ..'
  \<^item> \<open>ValidationError\<close>, \<open>VersionError\<close>, \<open>DuplicateKey\<close>, \<open>DocumentNotFound\<close>:
    the errors of the validation and persistence layers, by their names.
\<close>

datatype error =
    MoverNotFound
  | ItemsNotFound "string list"
  | InvalidStateTransition MagicMoverState MagicMoverState string
  | DuplicateItems "string list"
  | WeightLimitExceeded number number number
  | MustBeOnMission
  | ConcurrentModification
  | OperationFailed
  | CastError string
  | ValidationError validator
  | VersionError
  | DuplicateKey
  | DocumentNotFound

section \<open>State machine (stateMachine.util.ts)\<close>

record StateTransition =
  tr_from :: MagicMoverState
  tr_to :: MagicMoverState
  tr_action :: string

definition TRANSITIONS :: "StateTransition list" where
  "TRANSITIONS =
    [ \<lparr>tr_from = RESTING, tr_to = LOADING, tr_action = ''load''\<rparr>,
      \<lparr>tr_from = LOADING, tr_to = LOADING, tr_action = ''load''\<rparr>,
      \<lparr>tr_from = LOADING, tr_to = ON_MISSION, tr_action = ''start_mission''\<rparr>,
      \<lparr>tr_from = LOADING, tr_to = RESTING, tr_action = ''unload''\<rparr>,
      \<lparr>tr_from = ON_MISSION, tr_to = RESTING, tr_action = ''end_mission''\<rparr> ]"

definition canTransition :: "MagicMoverState \<Rightarrow> MagicMoverState \<Rightarrow> string \<Rightarrow> bool" where
  "canTransition currentState targetState action =
     list_ex (\<lambda>transition. tr_from transition = currentState \<and>
                            tr_to transition = targetState \<and>
                            tr_action transition = action) TRANSITIONS"

definition validateTransition :: "MagicMoverState \<Rightarrow> MagicMoverState \<Rightarrow> string \<Rightarrow> error + unit" where
  "validateTransition currentState targetState action =
     (if \<not> canTransition currentState targetState action
      then Inl (InvalidStateTransition currentState targetState action)
      else Inr ())"

definition getAllowedTransitions :: "MagicMoverState \<Rightarrow> StateTransition list" where
  "getAllowedTransitions currentState = filter (\<lambda>transition. tr_from transition = currentState) TRANSITIONS"

definition getTargetState :: "MagicMoverState \<Rightarrow> string \<Rightarrow> MagicMoverState option" where
  "getTargetState currentState action =
     map_option tr_to (find (\<lambda>t. tr_from t = currentState \<and> tr_action t = action) TRANSITIONS)"

text \<open>The five rows of the transition table, as triples.\<close>

definition transition_table :: "(MagicMoverState \<times> MagicMoverState \<times> string) set" where
  "transition_table =
     {(RESTING, LOADING, ''load''), (LOADING, LOADING, ''load''),
      (LOADING, ON_MISSION, ''start_mission''), (LOADING, RESTING, ''unload''),
      (ON_MISSION, RESTING, ''end_mission'')}"

section \<open>Persistence\<close>

text \<open>
  Schema validators of MagicMoverSchema: weightLimit, currentWeight and completedMissions
  have \<open>type: Number\<close> (the value is a JavaScript number) and \<open>min: 0\<close>; \<open>required\<close> and
  the state \<open>enum\<close> hold by typing. Mongoose runs them on every \<open>save()\<close>.
\<close>

definition validateMover :: "MagicMover \<Rightarrow> bool" where
  "validateMover doc \<longleftrightarrow>
     isNumber (weightLimit doc) \<and> 0 \<le> weightLimit doc \<and>
     isNumber (currentWeight doc) \<and> 0 \<le> currentWeight doc \<and>
     isNumber (completedMissions doc) \<and> 0 \<le> completedMissions doc"

text \<open>\<open>String.prototype.trim\<close> (schema option \<open>trim: true\<close>), on the code units below 256.\<close>

definition is_ws :: "char \<Rightarrow> bool" where
  "is_ws c \<longleftrightarrow> (of_char c :: nat) \<in> {9, 10, 11, 12, 13, 32, 160}"

definition trim :: "string \<Rightarrow> string" where
  "trim s = rev (dropWhile is_ws (rev (dropWhile is_ws s)))"

text \<open>\<open>MagicMoverModel.findById(id).exec()\<close>, for an id given in its string form (the
  form in which the API returns it).\<close>

definition findById :: "Db \<Rightarrow> oid \<Rightarrow> MagicMover option" where
  "findById db i = find (\<lambda>m. mover_id m = i) (movers db)"

text \<open>
  \<open>magicMover.save()\<close> on a document obtained by \<open>findById\<close>: validate, then update the
  stored document with the same \<open>_id\<close>. Since the schema has \<open>versionKey: false\<close>, the
  update is not conditioned on any version and \<open>save\<close> has no \<open>VersionError\<close> outcome.
\<close>

definition save :: "Db \<Rightarrow> MagicMover \<Rightarrow> (error + MagicMover) \<times> Db" where
  "save db doc =
     (if \<not> validateMover doc then (Inl (ValidationError MongooseSchema), db)
      else if findById db (mover_id doc) = None then (Inl DocumentNotFound, db)
      else (Inr doc, db\<lparr>movers := map (\<lambda>m. if mover_id m = mover_id doc then doc else m) (movers db)\<rparr>))"

text \<open>
  The block every mutating repository method ends with:
  \<^verbatim>\<open>try { return await magicMover.save(); }
  catch (error) { if (error.name === 'VersionError') throw new Error('Concurrent modification ...'); throw error; }\<close>
\<close>

definition saveWithOptimisticLocking :: "Db \<Rightarrow> MagicMover \<Rightarrow> (error + MagicMover option) \<times> Db" where
  "saveWithOptimisticLocking db doc =
     (case save db doc of
        (Inl e, db') \<Rightarrow> (Inl (if e = VersionError then ConcurrentModification else e), db')
      | (Inr saved, db') \<Rightarrow> (Inr (Some saved), db'))"

section \<open>Item registry (MagicItem.repository.ts, magicItem.service.ts, magicItem.dto.ts)\<close>

record CreateMagicItemDto =
  dto_item_name :: string
  dto_item_weight :: number


text \<open>
  \<open>MagicItemRepository.create\<close>: \<open>new MagicItemModel(data).save()\<close>. The schema trims the
  name, requires it (a required string must be non-empty) and requires \<open>weight >= 0\<close>
  (\<open>min: 0\<close>). \<open>new_id\<close> is the ObjectId the driver generates for the document.
\<close>

definition MagicItemRepository_create :: "Db \<Rightarrow> oid \<Rightarrow> CreateMagicItemDto \<Rightarrow> (error + MagicItem) \<times> Db" where
  "MagicItemRepository_create db new_id data =
     (let magicItem = \<lparr>item_id = new_id, item_name = trim (dto_item_name data), weight = dto_item_weight data\<rparr>
      in if item_name magicItem = [] \<or> weight magicItem < 0 then (Inl (ValidationError MongooseSchema), db)
         else if new_id \<in> set (map item_id (magicItems db)) then (Inl DuplicateKey, db)
         else (Inr magicItem, db\<lparr>magicItems := magicItems db @ [magicItem]\<rparr>))"

text \<open>
  \<open>MagicItemModel.find({ _id: { $in: ids } })\<close>: every string of \<open>ids\<close> is cast to an
  ObjectId (\<open>CastError\<close> for the first that is none); the result is every stored item
  whose id is among the cast ids, once, in stored order.
\<close>

definition findByIds :: "Db \<Rightarrow> string list \<Rightarrow> error + MagicItem list" where
  "findByIds db ids =
     (case find (\<lambda>i. castObjectId i = None) ids of
        Some i \<Rightarrow> Inl (CastError i)
      | None \<Rightarrow> Inr (filter (\<lambda>item. Some (item_id item) \<in> set (map castObjectId ids)) (magicItems db)))"

definition MagicItemService_create :: "Db \<Rightarrow> oid \<Rightarrow> CreateMagicItemDto \<Rightarrow> (error + MagicItem) \<times> Db" where
  "MagicItemService_create db new_id data = MagicItemRepository_create db new_id data"


section \<open>Activity log (ActivityLog.repository.ts)\<close>

definition ActivityLogRepository_create :: "Db \<Rightarrow> date \<Rightarrow> oid \<Rightarrow> ActivityType \<Rightarrow> ActivityDetails \<Rightarrow> Db" where
  "ActivityLogRepository_create db now mid ty det =
     db\<lparr>activityLogs := activityLogs db @
        [\<lparr>moverId = mid, activityType = ty, details = det, createdAt = now\<rparr>]\<rparr>"

section \<open>Mover repository (MagicMover.repository.ts)\<close>

record CreateMagicMoverDto =
  dto_name :: "string option"
  dto_weightLimit :: number
  dto_currentWeight :: "number option"
  dto_state :: "MagicMoverState option"
  dto_items :: "string list option"
  dto_completedMissions :: "number option"

text \<open>
  \<open>MagicMoverRepository.create\<close>: \<open>new MagicMoverModel(data).save()\<close>, with the schema
  defaults (currentWeight 0, state RESTING, items [], completedMissions 0) for the
  fields the DTO leaves out. \<open>new_id\<close> is the generated ObjectId.
\<close>

definition MagicMoverRepository_create :: "Db \<Rightarrow> oid \<Rightarrow> CreateMagicMoverDto \<Rightarrow> (error + MagicMover) \<times> Db" where
  "MagicMoverRepository_create db new_id data =
     (let magicMover =
        \<lparr>mover_id = new_id,
         name = map_option trim (dto_name data),
         weightLimit = dto_weightLimit data,
         currentWeight = (case dto_currentWeight data of None \<Rightarrow> 0 | Some w \<Rightarrow> w),
         state = (case dto_state data of None \<Rightarrow> RESTING | Some st \<Rightarrow> st),
         items = (case dto_items data of None \<Rightarrow> [] | Some xs \<Rightarrow> xs),
         completedMissions = (case dto_completedMissions data of None \<Rightarrow> 0 | Some n \<Rightarrow> n)\<rparr>
      in if \<not> validateMover magicMover then (Inl (ValidationError MongooseSchema), db)
         else if new_id \<in> set (map mover_id (movers db)) then (Inl DuplicateKey, db)
         else (Inr magicMover, db\<lparr>movers := movers db @ [magicMover]\<rparr>))"

definition validateWeightLimit :: "MagicMover \<Rightarrow> number \<Rightarrow> bool" where
  "validateWeightLimit mover additionalWeight =
     (let totalWeight = jsAdd (currentWeight mover) additionalWeight
      in totalWeight \<le> weightLimit mover)"

text \<open>\<open>new Set(magicMover.items)\<close> and \<open>existingItems.has(itemId)\<close> compare strings.\<close>

definition MagicMoverRepository_loadItems ::
  "Db \<Rightarrow> oid \<Rightarrow> string list \<Rightarrow> number \<Rightarrow> (error + MagicMover option) \<times> Db" where
  "MagicMoverRepository_loadItems db i itemIds totalWeight =
     (case findById db i of
        None \<Rightarrow> (Inr None, db)
      | Some magicMover \<Rightarrow>
          (case validateTransition (state magicMover) LOADING ''load'' of
             Inl e \<Rightarrow> (Inl e, db)
           | Inr _ \<Rightarrow>
               (let duplicates = filter (\<lambda>itemId. itemId \<in> set (items magicMover)) itemIds
                in if length duplicates > 0 then (Inl (DuplicateItems duplicates), db)
                   else if \<not> validateWeightLimit magicMover totalWeight
                   then (Inl (WeightLimitExceeded (currentWeight magicMover) totalWeight
                                (weightLimit magicMover)), db)
                   else saveWithOptimisticLocking db
                          (magicMover\<lparr>state := LOADING,
                                      items := items magicMover @ itemIds,
                                      currentWeight := jsAdd (currentWeight magicMover) totalWeight\<rparr>))))"

definition MagicMoverRepository_startMission :: "Db \<Rightarrow> oid \<Rightarrow> (error + MagicMover option) \<times> Db" where
  "MagicMoverRepository_startMission db i =
     (case findById db i of
        None \<Rightarrow> (Inr None, db)
      | Some magicMover \<Rightarrow>
          (case validateTransition (state magicMover) ON_MISSION ''start_mission'' of
             Inl e \<Rightarrow> (Inl e, db)
           | Inr _ \<Rightarrow> saveWithOptimisticLocking db (magicMover\<lparr>state := ON_MISSION\<rparr>)))"

text \<open>The in-memory part of \<open>MagicMoverRepository.endMission\<close>: the four assignments
  between the transition check and \<open>save()\<close>.\<close>

definition endMissionUpdate :: "MagicMover \<Rightarrow> MagicMover" where
  "endMissionUpdate magicMover =
     magicMover\<lparr>items := [], currentWeight := 0, state := RESTING,
                 completedMissions := jsAdd (completedMissions magicMover) 1\<rparr>"

definition MagicMoverRepository_endMission :: "Db \<Rightarrow> oid \<Rightarrow> (error + MagicMover option) \<times> Db" where
  "MagicMoverRepository_endMission db i =
     (case findById db i of
        None \<Rightarrow> (Inr None, db)
      | Some magicMover \<Rightarrow>
          (case validateTransition (state magicMover) RESTING ''end_mission'' of
             Inl e \<Rightarrow> (Inl e, db)
           | Inr _ \<Rightarrow> saveWithOptimisticLocking db (endMissionUpdate magicMover)))"

definition MagicMoverRepository_unloadItems :: "Db \<Rightarrow> oid \<Rightarrow> (error + MagicMover option) \<times> Db" where
  "MagicMoverRepository_unloadItems db i =
     (case findById db i of
        None \<Rightarrow> (Inr None, db)
      | Some magicMover \<Rightarrow>
          (case validateTransition (state magicMover) RESTING ''unload'' of
             Inl e \<Rightarrow> (Inl e, db)
           | Inr _ \<Rightarrow> saveWithOptimisticLocking db
                        (magicMover\<lparr>items := [], currentWeight := 0, state := RESTING\<rparr>)))"

section \<open>Mover service (magicMover.service.ts)\<close>

definition verifyMoverExists :: "Db \<Rightarrow> oid \<Rightarrow> error + MagicMover" where
  "verifyMoverExists db i = (case findById db i of None \<Rightarrow> Inl MoverNotFound | Some mover \<Rightarrow> Inr mover)"

text \<open>\<open>createActivityLog\<close>: details are \<open>{previousState, newState, ...additionalDetails}\<close>.\<close>

definition createActivityLog ::
  "Db \<Rightarrow> date \<Rightarrow> oid \<Rightarrow> ActivityType \<Rightarrow> MagicMoverState \<Rightarrow> MagicMoverState \<Rightarrow> ActivityDetails \<Rightarrow> Db" where
  "createActivityLog db now mid ty prev new additionalDetails =
     ActivityLogRepository_create db now mid ty
       (additionalDetails\<lparr>d_previousState := Some prev, d_newState := Some new\<rparr>)"

definition noDetails :: ActivityDetails where
  "noDetails = \<lparr>d_previousState = None, d_newState = None, d_itemIds = None, d_itemCount = None,
                d_totalWeight = None, d_completedMissions = None\<rparr>"

text \<open>\<open>item._id.toString()\<close> is the id in lower case; \<open>foundItemIds.includes(itemId)\<close>
  compares it with the string of the request.\<close>

definition validateItemsExist :: "Db \<Rightarrow> string list \<Rightarrow> error + unit" where
  "validateItemsExist db itemIds =
     (case findByIds db itemIds of
        Inl e \<Rightarrow> Inl e
      | Inr found \<Rightarrow>
          if length found \<noteq> length itemIds
          then (let foundItemIds = map item_id found;
                    missingItemIds = filter (\<lambda>itemId. itemId \<notin> set foundItemIds) itemIds
                in Inl (ItemsNotFound missingItemIds))
          else Inr ())"

definition calculateTotalWeight :: "Db \<Rightarrow> string list \<Rightarrow> error + number" where
  "calculateTotalWeight db itemIds =
     (case findByIds db itemIds of
        Inl e \<Rightarrow> Inl e
      | Inr found \<Rightarrow> Inr (foldl (\<lambda>sum item. jsAdd sum (weight item)) 0 found))"

definition MagicMoverService_create :: "Db \<Rightarrow> oid \<Rightarrow> CreateMagicMoverDto \<Rightarrow> (error + MagicMover) \<times> Db" where
  "MagicMoverService_create db new_id data = MagicMoverRepository_create db new_id data"

definition MagicMoverService_loadItems ::
  "Db \<Rightarrow> date \<Rightarrow> oid \<Rightarrow> string list \<Rightarrow> (error + MagicMover) \<times> Db" where
  "MagicMoverService_loadItems db now i itemIds =
     (case verifyMoverExists db i of
        Inl e \<Rightarrow> (Inl e, db)
      | Inr mover \<Rightarrow>
          (case validateItemsExist db itemIds of
             Inl e \<Rightarrow> (Inl e, db)
           | Inr _ \<Rightarrow>
               (case calculateTotalWeight db itemIds of
                  Inl e \<Rightarrow> (Inl e, db)
                | Inr totalWeight \<Rightarrow>
                    (let previousState = state mover
                     in case MagicMoverRepository_loadItems db i itemIds totalWeight of
                          (Inl e, db') \<Rightarrow> (Inl e, db')
                        | (Inr None, db') \<Rightarrow> (Inl OperationFailed, db')
                        | (Inr (Some updatedMover), db') \<Rightarrow>
                            (Inr updatedMover,
                             createActivityLog db' now i ACT_LOADING previousState (state updatedMover)
                               (noDetails\<lparr>d_itemIds := Some itemIds, d_itemCount := Some (length itemIds),
                                          d_totalWeight := Some totalWeight\<rparr>))))))"

definition MagicMoverService_startMission :: "Db \<Rightarrow> date \<Rightarrow> oid \<Rightarrow> (error + MagicMover) \<times> Db" where
  "MagicMoverService_startMission db now i =
     (case verifyMoverExists db i of
        Inl e \<Rightarrow> (Inl e, db)
      | Inr mover \<Rightarrow>
          (let previousState = state mover
           in case MagicMoverRepository_startMission db i of
                (Inl e, db') \<Rightarrow> (Inl e, db')
              | (Inr None, db') \<Rightarrow> (Inl OperationFailed, db')
              | (Inr (Some updatedMover), db') \<Rightarrow>
                  (Inr updatedMover,
                   createActivityLog db' now i ACT_MISSION_STARTED previousState (state updatedMover)
                     (noDetails\<lparr>d_itemCount := Some (length (items updatedMover)),
                                d_totalWeight := Some (currentWeight updatedMover)\<rparr>))))"

definition MagicMoverService_endMission :: "Db \<Rightarrow> date \<Rightarrow> oid \<Rightarrow> (error + MagicMover) \<times> Db" where
  "MagicMoverService_endMission db now i =
     (case verifyMoverExists db i of
        Inl e \<Rightarrow> (Inl e, db)
      | Inr mover \<Rightarrow>
          if state mover \<noteq> ON_MISSION then (Inl MustBeOnMission, db)
          else
            (let previousState = state mover;
                 itemCount = length (items mover);
                 totalWeight = currentWeight mover
             in case MagicMoverRepository_endMission db i of
                  (Inl e, db') \<Rightarrow> (Inl e, db')
                | (Inr None, db') \<Rightarrow> (Inl OperationFailed, db')
                | (Inr (Some updatedMover), db') \<Rightarrow>
                    (Inr updatedMover,
                     createActivityLog db' now i ACT_MISSION_ENDED previousState (state updatedMover)
                       (noDetails\<lparr>d_itemCount := Some itemCount, d_totalWeight := Some totalWeight,
                                  d_completedMissions := Some (completedMissions updatedMover)\<rparr>))))"

definition MagicMoverService_unloadItems :: "Db \<Rightarrow> date \<Rightarrow> oid \<Rightarrow> (error + MagicMover) \<times> Db" where
  "MagicMoverService_unloadItems db now i =
     (case verifyMoverExists db i of
        Inl e \<Rightarrow> (Inl e, db)
      | Inr mover \<Rightarrow>
          (let previousState = state mover;
               itemCount = length (items mover);
               totalWeight = currentWeight mover
           in case MagicMoverRepository_unloadItems db i of
                (Inl e, db') \<Rightarrow> (Inl e, db')
              | (Inr None, db') \<Rightarrow> (Inl OperationFailed, db')
              | (Inr (Some updatedMover), db') \<Rightarrow>
                  (Inr updatedMover,
                   createActivityLog db' now i ACT_UNLOADING previousState (state updatedMover)
                     (noDetails\<lparr>d_itemCount := Some itemCount, d_totalWeight := Some totalWeight\<rparr>))))"

section \<open>Leaderboard query (MagicMoverRepository.getTopPerformers)\<close>

text \<open>\<open>[...new Set(xs)]\<close>: the first occurrence of every element, in order.\<close>

fun uniq :: "'a list \<Rightarrow> 'a list" where
  "uniq [] = []"
| "uniq (x # xs) = x # filter (\<lambda>y. y \<noteq> x) (uniq xs)"

text \<open>The loop over \<open>moverLoadings\<close>: one increment for every loading that has some
  mission-ended entry created strictly later.\<close>

definition countMissions :: "ActivityLog list \<Rightarrow> ActivityLog list \<Rightarrow> nat" where
  "countMissions moverLoadings missionEnded =
     foldl (\<lambda>missionCount loading.
              (case find (\<lambda>ended. createdAt ended > createdAt loading) missionEnded of
                 Some matchingMission \<Rightarrow> missionCount + 1
               | None \<Rightarrow> missionCount))
           0 moverLoadings"

text \<open>
  \<open>Array.prototype.sort\<close> with the comparator \<open>b.missionCount - a.missionCount\<close> is a
  stable sort by descending count, that is by ascending negated count. An absent or
  empty \<open>itemId\<close> is falsy and selects the first branch, whose order among movers of
  equal completedMissions the database leaves open (taken as stable here).
\<close>

definition getTopPerformers :: "Db \<Rightarrow> oid option \<Rightarrow> MagicMover list" where
  "getTopPerformers db itemId =
     (case (case itemId of None \<Rightarrow> None | Some s \<Rightarrow> if s = [] then None else Some s) of
        None \<Rightarrow> sort_key (\<lambda>m. - completedMissions m) (movers db)
      | Some item \<Rightarrow>
        (let loadingActivities =
               filter (\<lambda>log. activityType log = ACT_LOADING \<and>
                             (case d_itemIds (details log) of
                                None \<Rightarrow> False
                              | Some xs \<Rightarrow> item \<in> set xs))
                      (activityLogs db);
             moverIds = uniq (map moverId loadingActivities)
         in if length moverIds = 0 then []
            else
              (let moverMissionCounts =
                     map (\<lambda>mid.
                            (let moverLoadings = filter (\<lambda>log. moverId log = mid) loadingActivities;
                                 missionEnded = filter (\<lambda>log. moverId log = mid \<and>
                                                            activityType log = ACT_MISSION_ENDED)
                                                       (activityLogs db)
                             in (mid, countMissions moverLoadings missionEnded)))
                         moverIds;
                   sortedCounts = sort_key (\<lambda>(mid, missionCount). - int missionCount) moverMissionCounts
               in List.map_filter (\<lambda>(mid, missionCount). findById db mid) sortedCounts)))"

text \<open>
  The count as the specification words it, for comparison with \<open>countMissions\<close>: the
  number of MISSION_ENDED entries of the mover that were created strictly after some
  LOADING entry of that mover whose itemIds contain the item.
\<close>

definition qualifyingMissions :: "Db \<Rightarrow> oid \<Rightarrow> oid \<Rightarrow> nat" where
  "qualifyingMissions db item mid =
     length (filter (\<lambda>ended. moverId ended = mid \<and> activityType ended = ACT_MISSION_ENDED \<and>
                       list_ex (\<lambda>loading. moverId loading = mid \<and> activityType loading = ACT_LOADING \<and>
                                   (case d_itemIds (details loading) of
                                      None \<Rightarrow> False
                                    | Some xs \<Rightarrow> item \<in> set xs) \<and>
                                   createdAt loading < createdAt ended)
                               (activityLogs db))
                    (activityLogs db))"

section \<open>The two phases of endMission\<close>

text \<open>
  \<open>MagicMoverService.endMission\<close> up to, and from, the \<open>save()\<close> of the repository: the
  first phase reads the mover (in the service and again in the repository), checks it
  and computes the document to write; the second writes it and appends the log entry.
  Lemma \<open>endMission_phases\<close> below shows that running them in a row is the service method.
\<close>

definition endMission_prepare :: "Db \<Rightarrow> oid \<Rightarrow> error + (MagicMover \<times> MagicMover)" where
  "endMission_prepare db i =
     (case verifyMoverExists db i of
        Inl e \<Rightarrow> Inl e
      | Inr mover \<Rightarrow>
          if state mover \<noteq> ON_MISSION then Inl MustBeOnMission
          else (case findById db i of
                  None \<Rightarrow> Inl OperationFailed
                | Some magicMover \<Rightarrow>
                    (case validateTransition (state magicMover) RESTING ''end_mission'' of
                       Inl e \<Rightarrow> Inl e
                     | Inr _ \<Rightarrow> Inr (mover, endMissionUpdate magicMover))))"

definition endMission_commit ::
  "Db \<Rightarrow> date \<Rightarrow> oid \<Rightarrow> MagicMover \<times> MagicMover \<Rightarrow> (error + MagicMover) \<times> Db" where
  "endMission_commit db now i p =
     (case saveWithOptimisticLocking db (snd p) of
        (Inl e, db') \<Rightarrow> (Inl e, db')
      | (Inr None, db') \<Rightarrow> (Inl OperationFailed, db')
      | (Inr (Some updatedMover), db') \<Rightarrow>
          (Inr updatedMover,
           createActivityLog db' now i ACT_MISSION_ENDED (state (fst p)) (state updatedMover)
             (noDetails\<lparr>d_itemCount := Some (length (items (fst p))),
                        d_totalWeight := Some (currentWeight (fst p)),
                        d_completedMissions := Some (completedMissions updatedMover)\<rparr>)))"

text \<open>Two endMission requests A and B for the same mover, racing: both run their first
  phase on the same database, then A commits, then B commits.\<close>

definition endMission_race ::
  "Db \<Rightarrow> date \<Rightarrow> date \<Rightarrow> oid \<Rightarrow> ((error + MagicMover) \<times> (error + MagicMover)) \<times> Db" where
  "endMission_race db nowA nowB i =
     (let pA = endMission_prepare db i;
          pB = endMission_prepare db i;
          (rA, db1) = (case pA of Inl e \<Rightarrow> (Inl e, db) | Inr p \<Rightarrow> endMission_commit db nowA i p);
          (rB, db2) = (case pB of Inl e \<Rightarrow> (Inl e, db1) | Inr p \<Rightarrow> endMission_commit db1 nowB i p)
      in ((rA, rB), db2))"

section \<open>Sequences of requests\<close>

datatype request =
    CreateMover oid CreateMagicMoverDto
  | CreateItem oid CreateMagicItemDto
  | LoadItems date oid "string list"
  | StartMission date oid
  | EndMission date oid
  | UnloadItems date oid

text \<open>One request, served to completion; a failed request leaves the database as it was.\<close>

fun serve :: "Db \<Rightarrow> request \<Rightarrow> Db" where
  "serve db (CreateMover new_id data) = snd (MagicMoverService_create db new_id data)"
| "serve db (CreateItem new_id data) = snd (MagicItemService_create db new_id data)"
| "serve db (LoadItems now i itemIds) = snd (MagicMoverService_loadItems db now i itemIds)"
| "serve db (StartMission now i) = snd (MagicMoverService_startMission db now i)"
| "serve db (EndMission now i) = snd (MagicMoverService_endMission db now i)"
| "serve db (UnloadItems now i) = snd (MagicMoverService_unloadItems db now i)"

definition run :: "Db \<Rightarrow> request list \<Rightarrow> Db" where
  "run db reqs = foldl serve db reqs"



section \<open>What a mover carries\<close>

text \<open>The stored item a string of \<open>items\<close> refers to (none when the string is no ObjectId
  or no stored item has that id), and its weight.\<close>

definition storedItem :: "Db \<Rightarrow> oid \<Rightarrow> MagicItem option" where
  "storedItem db i = find (\<lambda>item. item_id item = i) (magicItems db)"

definition itemOf :: "Db \<Rightarrow> string \<Rightarrow> MagicItem option" where
  "itemOf db s = (case castObjectId s of None \<Rightarrow> None | Some i \<Rightarrow> storedItem db i)"

definition itemWeight :: "Db \<Rightarrow> string \<Rightarrow> number" where
  "itemWeight db s = (case itemOf db s of None \<Rightarrow> 0 | Some item \<Rightarrow> weight item)"

text \<open>The stored items a request refers to, in stored order: what \<open>findByIds\<close> returns
  when every string of the request is an ObjectId.\<close>

definition requestedItems :: "Db \<Rightarrow> string list \<Rightarrow> MagicItem list" where
  "requestedItems db itemIds =
     filter (\<lambda>item. Some (item_id item) \<in> set (map castObjectId itemIds)) (magicItems db)"



text \<open>A number is on the grid of step \<open>2^-k\<close> when it is a non-negative multiple of the step.\<close>

definition onGrid :: "nat \<Rightarrow> number \<Rightarrow> bool" where
  "onGrid k x \<longleftrightarrow> 0 \<le> x \<and> of_int \<lfloor>x * 2 ^ k\<rfloor> = x * 2 ^ k"



section \<open>Example data\<close>

text \<open>The fixtures of the end-to-end tests (testFixtures.ts) and of the scenarios.\<close>

abbreviation featherId :: oid where "featherId \<equiv> ''65f1a2b3c4d5e6f708192a01''"
abbreviation scaleId :: oid where "scaleId \<equiv> ''65f1a2b3c4d5e6f708192a02''"
abbreviation golemId :: oid where "golemId \<equiv> ''65f1a2b3c4d5e6f708192a03''"
abbreviation anvilId :: oid where "anvilId \<equiv> ''65f1a2b3c4d5e6f708192a04''"
abbreviation pebbleId :: oid where "pebbleId \<equiv> ''65f1a2b3c4d5e6f708192a05''"

text \<open>The id of the Phoenix Feather as a client may write it: the same ObjectId.\<close>

abbreviation featherIdUpper :: string where "featherIdUpper \<equiv> ''65F1A2B3C4D5E6F708192A01''"

definition phoenixFeather :: MagicItem where
  "phoenixFeather = \<lparr>item_id = featherId, item_name = ''Phoenix Feather'', weight = 1/2\<rparr>"

definition dragonScale :: MagicItem where
  "dragonScale = \<lparr>item_id = scaleId, item_name = ''Dragon Scale'', weight = 5/2\<rparr>"

definition golemFragment :: MagicItem where
  "golemFragment = \<lparr>item_id = golemId, item_name = ''Stone Golem Fragment'', weight = 15\<rparr>"

definition registryDb :: Db where
  "registryDb = \<lparr>movers = [], magicItems = [phoenixFeather, dragonScale, golemFragment], activityLogs = []\<rparr>"

definition gandalfDto :: CreateMagicMoverDto where
  "gandalfDto = \<lparr>dto_name = Some ''Gandalf the Grey'', dto_weightLimit = 100, dto_currentWeight = None,
     dto_state = None, dto_items = None, dto_completedMissions = None\<rparr>"

text \<open>A mover of the given limit, state, cargo and weight.\<close>

definition mover1 :: "number \<Rightarrow> MagicMoverState \<Rightarrow> string list \<Rightarrow> number \<Rightarrow> MagicMover" where
  "mover1 limit st cargo w = \<lparr>mover_id = ''m1'', name = Some ''Gandalf the Grey'', weightLimit = limit,
     currentWeight = w, state = st, items = cargo, completedMissions = 0\<rparr>"

text \<open>A database holding that mover and the three items.\<close>

definition moverDb :: "number \<Rightarrow> MagicMoverState \<Rightarrow> string list \<Rightarrow> number \<Rightarrow> Db" where
  "moverDb limit st cargo w = registryDb\<lparr>movers := [mover1 limit st cargo w]\<rparr>"

definition merlinDto :: CreateMagicMoverDto where
  "merlinDto = \<lparr>dto_name = Some ''Merlin'', dto_weightLimit = 150, dto_currentWeight = None,
     dto_state = None, dto_items = None, dto_completedMissions = None\<rparr>"

text \<open>A mover that loads an item and flies no mission.\<close>

definition loadedOnly :: "request list" where
  "loadedOnly = [CreateMover ''m1'' gandalfDto, LoadItems 1 ''m1'' [featherId]]"

text \<open>Mover m1 loads the feather once and ends two missions after that; mover m2 loads
  the feather, unloads, loads it again and ends one mission.\<close>

definition twoMovers :: "request list" where
  "twoMovers =
     [CreateMover ''m1'' gandalfDto, CreateMover ''m2'' merlinDto,
      LoadItems 1 ''m1'' [featherId], StartMission 2 ''m1'', EndMission 3 ''m1'',
      LoadItems 4 ''m1'' [scaleId], StartMission 5 ''m1'', EndMission 6 ''m1'',
      LoadItems 7 ''m2'' [featherId], UnloadItems 8 ''m2'',
      LoadItems 9 ''m2'' [featherId], StartMission 10 ''m2'', EndMission 11 ''m2'']"

text \<open>The doubles that the literals 0.1, 0.2, 0.3 and 0.6 denote (lemma \<open>decimal_literals\<close>).\<close>

definition tenth :: number where "tenth = 3602879701896397 / 36028797018963968"
definition fifth :: number where "fifth = 3602879701896397 / 18014398509481984"
definition threeTenths :: number where "threeTenths = 5404319552844595 / 18014398509481984"
definition sixTenths :: number where "sixTenths = 5404319552844595 / 9007199254740992"



text \<open>An anvil of weight \<open>10^16\<close>, a pebble of weight 1, and a mover of limit \<open>10^16\<close>
  that has loaded the anvil.\<close>

definition heavyDb :: Db where
  "heavyDb = \<lparr>movers = [mover1 10000000000000000 LOADING [anvilId] 10000000000000000],
     magicItems = [\<lparr>item_id = anvilId, item_name = ''Anvil'', weight = 10000000000000000\<rparr>,
                   \<lparr>item_id = pebbleId, item_name = ''Pebble'', weight = 1\<rparr>],
     activityLogs = []\<rparr>"

text \<open>A mover on a mission that has completed \<open>2^53\<close> missions, as
  \<open>POST /magic-movers\<close> with state 'on-mission' and completedMissions 9007199254740992
  creates it.\<close>

definition veteranDto :: CreateMagicMoverDto where
  "veteranDto = \<lparr>dto_name = Some ''Gandalf the Grey'', dto_weightLimit = 100, dto_currentWeight = None,
     dto_state = Some ON_MISSION, dto_items = None, dto_completedMissions = Some 9007199254740992\<rparr>"

definition veteran :: MagicMover where
  "veteran = \<lparr>mover_id = ''m1'', name = Some ''Gandalf the Grey'', weightLimit = 100,
     currentWeight = 0, state = ON_MISSION, items = [], completedMissions = 9007199254740992\<rparr>"

definition veteranDb :: Db where
  "veteranDb = \<lparr>movers = [veteran], magicItems = [], activityLogs = []\<rparr>"

section \<open>Evaluation\<close>

lemmas eval_defs = MagicMoverService_create_def MagicMoverRepository_create_def
  MagicMoverService_loadItems_def MagicMoverRepository_loadItems_def
  MagicMoverService_startMission_def MagicMoverRepository_startMission_def
  MagicMoverService_endMission_def MagicMoverRepository_endMission_def
  MagicMoverService_unloadItems_def MagicMoverRepository_unloadItems_def
  verifyMoverExists_def validateItemsExist_def calculateTotalWeight_def findByIds_def findById_def
  validateTransition_def canTransition_def TRANSITIONS_def validateWeightLimit_def
  saveWithOptimisticLocking_def save_def validateMover_def createActivityLog_def
  ActivityLogRepository_create_def noDetails_def endMissionUpdate_def trim_def is_ws_def
  run_def Let_def

lemmas example_defs = phoenixFeather_def dragonScale_def golemFragment_def registryDb_def
  gandalfDto_def merlinDto_def mover1_def moverDb_def

lemmas top_defs = getTopPerformers_def countMissions_def qualifyingMissions_def List.map_filter_def

section \<open>Evaluating numbers\<close>

text \<open>Floors of fractions and bit lengths of numerals, by division.\<close>

lemma floor_rat_numeral_div: "\<lfloor>numeral a / numeral b :: rat\<rfloor> = numeral a div numeral b"
  by (metis floor_divide_of_int_eq of_int_numeral)

lemma floor_rat_one_div: "\<lfloor>1 / numeral b :: rat\<rfloor> = 1 div numeral b"
  by (metis floor_divide_of_int_eq of_int_numeral of_int_1)

lemma bitLength_0: "bitLength 0 = 0"
  by (simp add: bitLength.simps)

lemma bitLength_1: "bitLength 1 = 1"
  by (simp add: bitLength.simps)

lemma bitLength_Suc_0: "bitLength (Suc 0) = 1"
  by (simp add: bitLength.simps)

lemma bitLength_numeral: "bitLength (numeral n) = bitLength (numeral n div 2) + 1"
  by (subst bitLength.simps) simp

text \<open>The facts that evaluate \<open>roundDouble\<close> and \<open>jsAdd\<close> on numerals.\<close>

lemmas number_eval = jsAdd_def roundDouble_def roundMagnitude_def quantum_def roundHalfEven_def
  floorLog2_def POSITIVE_INFINITY_def pow2_def
  bitLength_0 bitLength_1 bitLength_Suc_0 bitLength_numeral floor_rat_numeral_div floor_rat_one_div


section \<open>Powers of two\<close>

lemma pow2_powi: "pow2 t = 2 powi t"
  by (simp add: pow2_def power_int_def power_one_over inverse_eq_divide)

lemma pow2_pos [simp]: "0 < pow2 t"
  by (simp add: pow2_powi)

lemma pow2_nonneg [simp]: "0 \<le> pow2 t"
  using pow2_pos[of t] by (rule less_imp_le)

lemma pow2_neq0 [simp]: "pow2 t \<noteq> 0"
  using pow2_pos[of t] by (rule less_imp_neq[symmetric])

lemma pow2_add: "pow2 (s + t) = pow2 s * pow2 t"
  by (simp add: pow2_powi power_int_add)

lemma pow2_diff: "pow2 (s - t) = pow2 s / pow2 t"
  by (simp add: pow2_powi power_int_diff)

lemma pow2_nat: "pow2 (int n) = 2 ^ n"
  by (simp add: pow2_def)

lemma pow2_mono: "s \<le> t \<Longrightarrow> pow2 s \<le> pow2 t"
  by (simp add: pow2_powi power_int_increasing)

lemma pow2_strict_mono: "s < t \<Longrightarrow> pow2 s < pow2 t"
  by (simp add: pow2_powi power_int_strict_increasing)

lemma pow2_less_cancel: "pow2 s < pow2 t \<Longrightarrow> s < t"
  using pow2_mono[of t s] by (cases "s < t") auto

lemma pow2_of_int: "0 \<le> t \<Longrightarrow> pow2 t = of_int (2 ^ nat t)"
  by (simp add: pow2_def)

section \<open>Bit length\<close>

lemma bitLength_upper: "n < 2 ^ bitLength n"
proof (induction n rule: bitLength.induct)
  case (1 n)
  show ?case
  proof (cases "n = 0")
    case True
    then show ?thesis by (simp add: bitLength.simps)
  next
    case False
    from 1[OF False] have "n div 2 < 2 ^ bitLength (n div 2)" .
    then have "n < 2 * 2 ^ bitLength (n div 2)" by linarith
    moreover have "bitLength n = bitLength (n div 2) + 1"
      using False by (subst bitLength.simps) simp
    ultimately show ?thesis by simp
  qed
qed

lemma bitLength_pos: "0 < n \<Longrightarrow> 0 < bitLength n"
  by (subst bitLength.simps) simp

lemma bitLength_lower: "0 < n \<Longrightarrow> 2 ^ (bitLength n - 1) \<le> n"
proof (induction n rule: bitLength.induct)
  case (1 n)
  then have n: "n \<noteq> 0" by simp
  have b: "bitLength n = bitLength (n div 2) + 1"
    using n by (subst bitLength.simps) simp
  show ?case
  proof (cases "n div 2 = 0")
    case True
    then show ?thesis using b "1.prems" by (simp add: bitLength.simps)
  next
    case False
    then have p: "0 < n div 2" by simp
    from "1.IH"[OF n p] have ih: "2 ^ (bitLength (n div 2) - 1) \<le> n div 2" .
    have "bitLength n - 1 = (bitLength (n div 2) - 1) + 1"
      using b bitLength_pos[OF p] by simp
    then have "(2::nat) ^ (bitLength n - 1) = 2 * 2 ^ (bitLength (n div 2) - 1)" by simp
    also have "\<dots> \<le> 2 * (n div 2)" using ih by simp
    also have "\<dots> \<le> n" by simp
    finally show ?thesis .
  qed
qed

section \<open>The binary exponent\<close>

lemma floorLog2_bounds:
  assumes "0 < a"
  shows "pow2 (floorLog2 a) \<le> a \<and> a < pow2 (floorLog2 a + 1)"
proof (cases "1 \<le> a")
  case True
  define n where "n = nat \<lfloor>a\<rfloor>"
  have fl: "1 \<le> \<lfloor>a\<rfloor>" using True by simp
  then have n: "0 < n" and nf: "int n = \<lfloor>a\<rfloor>" by (simp_all add: n_def)
  have e: "floorLog2 a = int (bitLength n) - 1" using True by (simp add: floorLog2_def n_def)
  have e': "floorLog2 a = int (bitLength n - 1)" using e bitLength_pos[OF n] by simp
  have "pow2 (floorLog2 a) = of_nat (2 ^ (bitLength n - 1))" unfolding e' pow2_nat by simp
  also have "\<dots> \<le> of_nat n" using bitLength_lower[OF n] by (simp only: of_nat_le_iff)
  also have "\<dots> = of_int \<lfloor>a\<rfloor>" using nf by (metis of_int_of_nat_eq)
  also have "\<dots> \<le> a" by simp
  finally have lo: "pow2 (floorLog2 a) \<le> a" .
  have "n + 1 \<le> 2 ^ bitLength n" using bitLength_upper[of n] by simp
  then have "(of_nat (n + 1) :: rat) \<le> of_nat (2 ^ bitLength n)" by (simp only: of_nat_le_iff)
  then have "of_int \<lfloor>a\<rfloor> + 1 \<le> (2::rat) ^ bitLength n"
    using nf by (metis of_int_of_nat_eq of_nat_add of_nat_1 of_nat_power of_nat_numeral)
  moreover have "a < of_int \<lfloor>a\<rfloor> + 1" by linarith
  moreover have "pow2 (floorLog2 a + 1) = 2 ^ bitLength n" unfolding e using pow2_nat[of "bitLength n"] by simp
  ultimately have "a < pow2 (floorLog2 a + 1)" by simp
  with lo show ?thesis by simp
next
  case False
  then have a1: "a < 1" by simp
  define u where "u = 1 / a"
  have u1: "1 < u" using assms a1 by (simp add: u_def)
  define n where "n = nat \<lfloor>u\<rfloor>"
  have fl: "1 \<le> \<lfloor>u\<rfloor>" using u1 by simp
  then have n: "0 < n" and nf: "int n = \<lfloor>u\<rfloor>" by (simp_all add: n_def)
  define c where "c = bitLength n"
  have c: "0 < c" using bitLength_pos[OF n] by (simp add: c_def)
  have "(of_nat (2 ^ (c - 1)) :: rat) \<le> of_nat n" using bitLength_lower[OF n] unfolding c_def by (simp only: of_nat_le_iff)
  also have "\<dots> = of_int \<lfloor>u\<rfloor>" using nf by (metis of_int_of_nat_eq)
  also have "\<dots> \<le> u" by simp
  finally have lo: "2 ^ (c - 1) \<le> u" by simp
  have "n + 1 \<le> 2 ^ c" using bitLength_upper[of n] by (simp add: c_def)
  then have "(of_nat (n + 1) :: rat) \<le> of_nat (2 ^ c)" by (simp only: of_nat_le_iff)
  then have "of_int \<lfloor>u\<rfloor> + 1 \<le> (2::rat) ^ c"
    using nf by (metis of_int_of_nat_eq of_nat_add of_nat_1 of_nat_power of_nat_numeral)
  moreover have "u < of_int \<lfloor>u\<rfloor> + 1" by linarith
  ultimately have hi: "u < 2 ^ c" by simp
  have p1: "pow2 (1 - int c) = 1 / 2 ^ (c - 1)"
    using c pow2_diff[of 0 "int (c - 1)"] pow2_nat[of "c - 1"] by (simp add: pow2_def of_nat_diff)
  have p0: "pow2 (- int c) = 1 / 2 ^ c"
    using pow2_diff[of 0 "int c"] pow2_nat[of c] by (simp add: pow2_def)
  have pc: "pow2 (int c - 1) = 2 ^ (c - 1)"
    using c pow2_nat[of "c - 1"] by (simp add: of_nat_diff)
  have up: "a \<le> pow2 (1 - int c)"
    unfolding p1 using lo assms by (simp add: u_def field_simps)
  have dn: "pow2 (- int c) < a"
    unfolding p0 using hi assms by (simp add: u_def field_simps)
  show ?thesis
  proof (cases "a * pow2 (int c - 1) = 1")
    case True
    then have e: "floorLog2 a = 1 - int c" using a1 by (simp add: floorLog2_def c_def n_def u_def)
    have eq: "a = pow2 (1 - int c)" unfolding p1 using True unfolding pc by (simp add: field_simps)
    have "pow2 (1 - int c) < pow2 (1 - int c + 1)" by (rule pow2_strict_mono) simp
    then show ?thesis unfolding e using eq by simp
  next
    case F: False
    then have e: "floorLog2 a = - int c" using a1 by (simp add: floorLog2_def c_def n_def u_def)
    have "a \<noteq> pow2 (1 - int c)" using F unfolding p1 pc by (auto simp: field_simps)
    then have "a < pow2 (- int c + 1)" using up by (simp add: add.commute)
    then show ?thesis unfolding e using dn by simp
  qed
qed

lemma floorLog2_eqI:
  assumes "pow2 e \<le> a" and "a < pow2 (e + 1)"
  shows "floorLog2 a = e"
proof -
  have a: "0 < a" using assms(1) pow2_pos[of e] by linarith
  from floorLog2_bounds[OF a] have b: "pow2 (floorLog2 a) \<le> a" "a < pow2 (floorLog2 a + 1)" by simp_all
  have "pow2 e < pow2 (floorLog2 a + 1)" using assms(1) b(2) by linarith
  then have 1: "e < floorLog2 a + 1" by (rule pow2_less_cancel)
  have "pow2 (floorLog2 a) < pow2 (e + 1)" using assms(2) b(1) by linarith
  then have 2: "floorLog2 a < e + 1" by (rule pow2_less_cancel)
  from 1 2 show ?thesis by simp
qed


section \<open>Rounding\<close>

lemma roundHalfEven_of_int [simp]: "roundHalfEven (of_int n) = n"
  by (simp add: roundHalfEven_def)

lemma roundHalfEven_ge: "\<lfloor>q\<rfloor> \<le> roundHalfEven q"
  by (simp add: roundHalfEven_def)

lemma roundHalfEven_le: "roundHalfEven q \<le> \<lfloor>q\<rfloor> + 1"
  by (simp add: roundHalfEven_def)

lemma quantum_le:
  assumes "0 < m" and "m < 2 ^ 53" and "- 1074 \<le> j"
  shows "quantum (of_int m * pow2 j) \<le> j"
proof -
  let ?a = "of_int m * pow2 j"
  have a: "0 < ?a" using assms(1) by simp
  have "(of_int m :: rat) < of_int (2 ^ 53)" using assms(2) by (simp only: of_int_less_iff)
  then have "(of_int m :: rat) < pow2 53" by (simp add: pow2_def)
  then have "?a < pow2 53 * pow2 j" by (simp add: mult_strict_right_mono)
  then have "?a < pow2 (53 + j)" by (simp add: pow2_add)
  moreover have "pow2 (floorLog2 ?a) \<le> ?a" using floorLog2_bounds[OF a] by simp
  ultimately have "pow2 (floorLog2 ?a) < pow2 (53 + j)" by linarith
  then have "floorLog2 ?a < 53 + j" by (rule pow2_less_cancel)
  then show ?thesis using assms(3) by (simp add: quantum_def)
qed

text \<open>A number with a significand below \<open>2^53\<close> and an exponent from \<open>-1074\<close> on is
  its own rounding.\<close>

lemma roundMagnitude_dyadic:
  assumes "0 < m" and "m < 2 ^ 53" and "- 1074 \<le> j"
  shows "roundMagnitude (of_int m * pow2 j) = of_int m * pow2 j"
proof -
  let ?a = "of_int m * pow2 j"
  define t where "t = quantum ?a"
  have t: "t \<le> j" unfolding t_def by (rule quantum_le[OF assms])
  have "?a / pow2 t = of_int m * pow2 (j - t)" by (simp add: pow2_diff)
  also have "\<dots> = of_int (m * 2 ^ nat (j - t))" using t by (simp add: pow2_of_int)
  finally have q: "?a / pow2 t = of_int (m * 2 ^ nat (j - t))" .
  have rh: "roundHalfEven (?a / pow2 t) = m * 2 ^ nat (j - t)"
    unfolding q by (rule roundHalfEven_of_int)
  have "roundMagnitude ?a = of_int (m * 2 ^ nat (j - t)) * pow2 t"
    unfolding roundMagnitude_def t_def[symmetric] rh ..
  also have "\<dots> = ?a / pow2 t * pow2 t" by (simp only: q)
  also have "\<dots> = ?a" by simp
  finally show ?thesis .
qed

lemma roundDouble_minus: "roundDouble (- x) = - roundDouble x"
  by (simp add: roundDouble_def sgn_minus)

lemma roundDouble_pos:
  assumes "0 < a"
  shows "roundDouble a = (if POSITIVE_INFINITY \<le> roundMagnitude a then POSITIVE_INFINITY else roundMagnitude a)"
  using assms by (simp add: roundDouble_def)

lemma roundDouble_dyadic:
  assumes "0 < m" and "m < 2 ^ 53" and "- 1074 \<le> j" and "of_int m * pow2 j < POSITIVE_INFINITY"
  shows "roundDouble (of_int m * pow2 j) = of_int m * pow2 j"
proof -
  have a: "0 < of_int m * pow2 j" using assms(1) by simp
  show ?thesis
    unfolding roundDouble_pos[OF a] roundMagnitude_dyadic[OF assms(1,2,3)] using assms(4) by simp
qed

lemma POSITIVE_INFINITY_pow2: "POSITIVE_INFINITY = pow2 1024"
  by (simp add: POSITIVE_INFINITY_def pow2_def)

text \<open>Rounding never goes below a power of two that the number has reached.\<close>

lemma roundMagnitude_lower:
  assumes "pow2 s \<le> a" and "- 1074 \<le> s"
  shows "pow2 s \<le> roundMagnitude a"
proof -
  have a: "0 < a" using assms(1) pow2_pos[of s] by linarith
  define e where "e = floorLog2 a"
  define t where "t = quantum a"
  have b: "pow2 e \<le> a" "a < pow2 (e + 1)" using floorLog2_bounds[OF a] by (simp_all add: e_def)
  have "pow2 s < pow2 (e + 1)" using assms(1) b(2) by linarith
  then have se: "s \<le> e" using pow2_less_cancel[of s "e + 1"] by simp
  have te: "t \<le> e" using se assms(2) by (simp add: t_def quantum_def e_def)
  have pe: "of_int (2 ^ nat (e - t)) = pow2 (e - t)" using te by (simp add: pow2_of_int)
  have "of_int (2 ^ nat (e - t)) = pow2 (e - t)" by (rule pe)
  also have "\<dots> = pow2 e / pow2 t" by (rule pow2_diff)
  also have "\<dots> \<le> a / pow2 t" using b(1) by (simp add: divide_right_mono)
  finally have "2 ^ nat (e - t) \<le> \<lfloor>a / pow2 t\<rfloor>" by (simp only: le_floor_iff)
  then have "2 ^ nat (e - t) \<le> roundHalfEven (a / pow2 t)"
    using roundHalfEven_ge[of "a / pow2 t"] by linarith
  then have "(of_int (2 ^ nat (e - t)) :: rat) \<le> of_int (roundHalfEven (a / pow2 t))"
    by (simp only: of_int_le_iff)
  then have "of_int (2 ^ nat (e - t)) * pow2 t \<le> roundMagnitude a"
    unfolding roundMagnitude_def t_def[symmetric] by (simp add: mult_right_mono)
  moreover have "of_int (2 ^ nat (e - t)) * pow2 t = pow2 e"
    unfolding pe pow2_add[symmetric] by simp
  ultimately have "pow2 e \<le> roundMagnitude a" by simp
  then show ?thesis using pow2_mono[OF se] by linarith
qed

lemma roundDouble_lower:
  assumes "pow2 s \<le> a" and "- 1074 \<le> s" and "s \<le> 1024"
  shows "pow2 s \<le> roundDouble a"
proof -
  have a: "0 < a" using assms(1) pow2_pos[of s] by linarith
  have "pow2 s \<le> POSITIVE_INFINITY" unfolding POSITIVE_INFINITY_pow2 using assms(3) by (rule pow2_mono)
  then show ?thesis
    unfolding roundDouble_pos[OF a] using roundMagnitude_lower[OF assms(1,2)] by simp
qed

lemma roundMagnitude_nonneg:
  assumes "0 \<le> a"
  shows "0 \<le> roundMagnitude a"
proof -
  have "0 \<le> a / pow2 (quantum a)" using assms by simp
  then have "0 \<le> \<lfloor>a / pow2 (quantum a)\<rfloor>" by simp
  then have "0 \<le> roundHalfEven (a / pow2 (quantum a))"
    using roundHalfEven_ge[of "a / pow2 (quantum a)"] by linarith
  then show ?thesis by (simp add: roundMagnitude_def)
qed

lemma roundDouble_nonneg:
  assumes "0 \<le> a"
  shows "0 \<le> roundDouble a"
proof (cases "a = 0")
  case True
  then show ?thesis by (simp add: roundDouble_def)
next
  case False
  then have a: "0 < a" using assms by simp
  have "0 \<le> POSITIVE_INFINITY" unfolding POSITIVE_INFINITY_pow2 by simp
  then show ?thesis
    unfolding roundDouble_pos[OF a] using roundMagnitude_nonneg[OF assms] by simp
qed


section \<open>Rounding is idempotent\<close>

lemma roundHalfEven_upper:
  assumes "q < of_int K"
  shows "roundHalfEven q \<le> K"
proof -
  have "\<lfloor>q\<rfloor> < K" using assms by (simp add: floor_less_iff)
  then show ?thesis using roundHalfEven_le[of q] by linarith
qed

lemma significand_bound:
  assumes "0 < a"
  shows "roundHalfEven (a / pow2 (quantum a)) \<le> 2 ^ 53"
proof -
  define e where "e = floorLog2 a"
  define t where "t = quantum a"
  have b: "a < pow2 (e + 1)" using floorLog2_bounds[OF assms] by (simp add: e_def)
  have t: "e + 1 - t \<le> 53" by (simp add: t_def quantum_def e_def)
  have "a / pow2 t < pow2 (e + 1) / pow2 t" using b by (simp add: divide_strict_right_mono)
  also have "\<dots> = pow2 (e + 1 - t)" by (rule pow2_diff[symmetric])
  also have "\<dots> \<le> pow2 53" using t by (rule pow2_mono)
  also have "pow2 53 = of_int (2 ^ 53)" by (simp add: pow2_def)
  finally show ?thesis unfolding t_def by (rule roundHalfEven_upper)
qed

lemma roundMagnitude_0 [simp]: "roundMagnitude 0 = 0"
  using roundHalfEven_of_int[of 0] by (simp add: roundMagnitude_def)

lemma roundMagnitude_idem:
  assumes "0 < a"
  shows "roundMagnitude (roundMagnitude a) = roundMagnitude a"
proof -
  define t where "t = quantum a"
  define N where "N = roundHalfEven (a / pow2 t)"
  have r: "roundMagnitude a = of_int N * pow2 t" by (simp add: roundMagnitude_def t_def N_def)
  have t: "- 1074 \<le> t" by (simp add: t_def quantum_def)
  have up: "N \<le> 2 ^ 53" unfolding N_def t_def by (rule significand_bound[OF assms])
  have "0 \<le> a / pow2 t" using assms by simp
  then have "0 \<le> \<lfloor>a / pow2 t\<rfloor>" by simp
  then have lo: "0 \<le> N" unfolding N_def using roundHalfEven_ge[of "a / pow2 t"] by linarith
  consider "N = 0" | "0 < N" "N < 2 ^ 53" | "N = 2 ^ 53" using lo up by linarith
  then show ?thesis
  proof cases
    case 1
    then show ?thesis unfolding r by simp
  next
    case 2
    then show ?thesis unfolding r using t by (rule roundMagnitude_dyadic)
  next
    case 3
    have "of_int N * pow2 t = of_int (2 ^ 52) * pow2 (t + 1)"
      unfolding 3 pow2_add by (simp add: pow2_def)
    moreover have "roundMagnitude (of_int (2 ^ 52) * pow2 (t + 1)) = of_int (2 ^ 52) * pow2 (t + 1)"
      using t by (intro roundMagnitude_dyadic) simp_all
    ultimately show ?thesis unfolding r by simp
  qed
qed

lemma roundDouble_0 [simp]: "roundDouble 0 = 0"
  by (simp add: roundDouble_def)

lemma POSITIVE_INFINITY_pos [simp]: "0 < POSITIVE_INFINITY"
  by (simp add: POSITIVE_INFINITY_def)

lemma POSITIVE_INFINITY_neq0 [simp]: "POSITIVE_INFINITY \<noteq> 0"
  by (simp add: POSITIVE_INFINITY_def)

lemma roundDouble_POSITIVE_INFINITY [simp]: "roundDouble POSITIVE_INFINITY = POSITIVE_INFINITY"
proof -
  have e: "POSITIVE_INFINITY = of_int (2 ^ 52) * pow2 972"
    by (simp add: POSITIVE_INFINITY_def pow2_def)
  have "roundMagnitude (of_int (2 ^ 52) * pow2 972) = of_int (2 ^ 52) * pow2 972"
    by (intro roundMagnitude_dyadic) simp_all
  then have "roundMagnitude POSITIVE_INFINITY = POSITIVE_INFINITY" by (simp only: e)
  then show ?thesis by (simp add: roundDouble_pos)
qed

lemma roundDouble_idem_pos:
  assumes "0 < a"
  shows "roundDouble (roundDouble a) = roundDouble a"
proof (cases "POSITIVE_INFINITY \<le> roundMagnitude a")
  case True
  then show ?thesis by (simp add: roundDouble_pos[OF assms])
next
  case False
  then have r: "roundDouble a = roundMagnitude a" by (simp add: roundDouble_pos[OF assms])
  show ?thesis
  proof (cases "roundMagnitude a = 0")
    case True
    then show ?thesis by (simp add: r)
  next
    case F: False
    then have p: "0 < roundMagnitude a"
      using roundMagnitude_nonneg[of a] assms by simp
    show ?thesis
      unfolding r roundDouble_pos[OF p] roundMagnitude_idem[OF assms] using False by simp
  qed
qed

lemma roundDouble_idem: "roundDouble (roundDouble x) = roundDouble x"
proof -
  consider "x = 0" | "0 < x" | "0 < - x" by linarith
  then show ?thesis
  proof cases
    case 1
    then show ?thesis by simp
  next
    case 2
    then show ?thesis by (rule roundDouble_idem_pos)
  next
    case 3
    from roundDouble_idem_pos[OF 3] show ?thesis by (simp add: roundDouble_minus)
  qed
qed

lemma isNumber_roundDouble [simp]: "isNumber (roundDouble x)"
  by (simp add: isNumber_def roundDouble_idem)

lemma isNumber_0 [simp]: "isNumber 0"
  by (simp add: isNumber_def)

lemma isNumber_POSITIVE_INFINITY [simp]: "isNumber POSITIVE_INFINITY"
  by (simp add: isNumber_def)

lemma isNumber_minus: "isNumber (- x) = isNumber x"
  by (simp add: isNumber_def roundDouble_minus)

lemma isNumber_jsAdd [simp]: "isNumber (jsAdd x y)"
  by (simp add: jsAdd_def isNumber_minus)

lemma jsAdd_0_right: "isNumber x \<Longrightarrow> jsAdd x 0 = x"
  by (auto simp: jsAdd_def isNumber_def)

lemma jsAdd_0_left: "isNumber y \<Longrightarrow> jsAdd 0 y = y"
  by (auto simp: jsAdd_def isNumber_def)

lemma jsAdd_nonneg: "0 \<le> x \<Longrightarrow> 0 \<le> y \<Longrightarrow> 0 \<le> jsAdd x y"
  by (simp add: jsAdd_def roundDouble_nonneg less_imp_le)

lemma jsAdd_lower:
  assumes "0 \<le> x" and "0 \<le> y" and "pow2 s \<le> x + y" and "- 1074 \<le> s" and "s \<le> 1024"
  shows "pow2 s \<le> jsAdd x y"
proof -
  have i: "pow2 s \<le> POSITIVE_INFINITY" unfolding POSITIVE_INFINITY_pow2 using assms(5) by (rule pow2_mono)
  have x: "x \<noteq> - POSITIVE_INFINITY" using assms(1) POSITIVE_INFINITY_pos by linarith
  have y: "y \<noteq> - POSITIVE_INFINITY" using assms(2) POSITIVE_INFINITY_pos by linarith
  show ?thesis using i x y roundDouble_lower[OF assms(3,4,5)] by (simp add: jsAdd_def)
qed

section \<open>Numbers on a binary grid\<close>

lemma roundDouble_grid:
  assumes "n \<le> 2 ^ 53" and "k \<le> 1074"
  shows "roundDouble (of_nat n / 2 ^ k) = of_nat n / 2 ^ k"
proof -
  have p: "pow2 (- int k) = 1 / 2 ^ k" by (simp add: pow2_def)
  have big: "(2::rat) ^ 53 < POSITIVE_INFINITY" by (simp add: POSITIVE_INFINITY_def)
  have k1: "(1::rat) \<le> 2 ^ k" by simp
  have le: "(of_nat n :: rat) / 2 ^ k \<le> 2 ^ 53"
  proof -
    have "(of_nat n :: rat) \<le> of_nat (2 ^ 53)" using assms(1) by (simp only: of_nat_le_iff)
    then have "(of_nat n :: rat) \<le> 2 ^ 53" by simp
    moreover have "(of_nat n :: rat) / 2 ^ k \<le> of_nat n"
      using k1 by (simp add: divide_le_eq mult_le_cancel_left1)
    ultimately show ?thesis by linarith
  qed
  consider "n = 0" | "0 < n" "n < 2 ^ 53" | "n = 2 ^ 53" using assms(1) by linarith
  then show ?thesis
  proof cases
    case 1
    then show ?thesis by simp
  next
    case 2
    have e: "of_nat n / 2 ^ k = of_int (int n) * pow2 (- int k)" by (simp add: p)
    have "roundDouble (of_int (int n) * pow2 (- int k)) = of_int (int n) * pow2 (- int k)"
    proof (rule roundDouble_dyadic)
      show "0 < int n" using 2 by simp
      show "int n < 2 ^ 53" using 2(2) by (metis of_nat_less_iff of_nat_numeral of_nat_power)
      show "- 1074 \<le> - int k" using assms(2) by simp
      show "of_int (int n) * pow2 (- int k) < POSITIVE_INFINITY" using le big unfolding e[symmetric] by linarith
    qed
    then show ?thesis by (simp only: e)
  next
    case 3
    have e: "of_nat n / 2 ^ k = of_int (2 ^ 52) * pow2 (1 - int k)"
      unfolding 3 pow2_diff p by (simp add: pow2_def)
    have "roundDouble (of_int (2 ^ 52) * pow2 (1 - int k)) = of_int (2 ^ 52) * pow2 (1 - int k)"
    proof (rule roundDouble_dyadic)
      show "- 1074 \<le> 1 - int k" using assms(2) by simp
      show "of_int (2 ^ 52) * pow2 (1 - int k) < POSITIVE_INFINITY" using le big unfolding e[symmetric] by linarith
    qed simp_all
    then show ?thesis by (simp only: e)
  qed
qed

lemma roundDouble_of_nat: "n \<le> 2 ^ 53 \<Longrightarrow> roundDouble (of_nat n) = of_nat n"
  using roundDouble_grid[of n 0] by simp

section \<open>The numbers of the examples\<close>

text \<open>The decimal literals, and the sums of the scenarios: \<open>0.2 + 0.3\<close> is \<open>0.5\<close>,
  \<open>0.1 + 0.5\<close> is \<open>0.6\<close>, while \<open>(0.1 + 0.2) + 0.3\<close> is the next double after \<open>0.6\<close>.\<close>

lemma decimal_literals:
  "roundDouble (1/10) = tenth" "roundDouble (2/10) = fifth"
  "roundDouble (3/10) = threeTenths" "roundDouble (6/10) = sixTenths"
  by (simp_all add: number_eval tenth_def fifth_def threeTenths_def sixTenths_def)

lemma decimal_sums:
  "jsAdd fifth threeTenths = 1/2" "jsAdd tenth (1/2) = sixTenths"
  "jsAdd (jsAdd tenth fifth) threeTenths = 1351079888211149 / 2251799813685248"
  by (simp_all add: number_eval tenth_def fifth_def threeTenths_def sixTenths_def)

lemma decimal_numbers:
  "isNumber tenth" "isNumber fifth" "isNumber threeTenths" "isNumber sixTenths"
  by (simp_all add: isNumber_def number_eval tenth_def fifth_def threeTenths_def sixTenths_def)

lemma example_numbers:
  "isNumber 1" "isNumber 2" "isNumber 3" "isNumber 10" "isNumber 15" "isNumber 100" "isNumber 150"
  "isNumber (1/2)" "isNumber (5/2)" "isNumber 10000000000000000" "isNumber 9007199254740992"
  by (simp_all add: isNumber_def number_eval)

lemma example_sums:
  "jsAdd (1/2) (5/2) = 3" "jsAdd 1 1 = 2" "jsAdd (1/2) (1/2) = 1"
  "jsAdd 10000000000000000 1 = 10000000000000000"
  "jsAdd 9007199254740992 1 = 9007199254740992"
  by (simp_all add: number_eval)

lemmas numbers = isNumber_0 example_numbers example_sums jsAdd_0_left jsAdd_0_right
  decimal_numbers[unfolded tenth_def fifth_def threeTenths_def sixTenths_def]
  decimal_sums[unfolded tenth_def fifth_def threeTenths_def sixTenths_def]

section \<open>State machine\<close>

lemma canTransition_table:
  "canTransition f t a \<longleftrightarrow> (f, t, a) \<in> transition_table"
  by (auto simp: canTransition_def TRANSITIONS_def transition_table_def)

lemma validateTransition_eq:
  "validateTransition f t a =
     (if (f, t, a) \<in> transition_table then Inr () else Inl (InvalidStateTransition f t a))"
  by (simp add: validateTransition_def canTransition_table)

text \<open>
  Claim C2. \<open>canTransition\<close> is true for exactly the five rows of the table;
  \<open>validateTransition\<close> fails for every other triple, with an error that carries the
  from-state, the to-state and the action; in particular RESTING to ON_MISSION by
  \<open>start_mission\<close> is rejected.
\<close>

theorem stateMachine_table:
  "(canTransition f t a \<longleftrightarrow> (f, t, a) \<in> transition_table) \<and>
   validateTransition f t a =
     (if (f, t, a) \<in> transition_table then Inr () else Inl (InvalidStateTransition f t a)) \<and>
   validateTransition RESTING ON_MISSION ''start_mission'' =
     Inl (InvalidStateTransition RESTING ON_MISSION ''start_mission'')"
  by (simp add: validateTransition_def canTransition_table) (simp add: transition_table_def)

section \<open>Reading and saving movers\<close>

lemma findById_SomeD: "findById db i = Some m \<Longrightarrow> mover_id m = i \<and> m \<in> set (movers db)"
  by (auto simp: findById_def find_Some_iff)

lemma save_ok:
  "findById db (mover_id doc) \<noteq> None \<Longrightarrow> validateMover doc \<Longrightarrow>
   saveWithOptimisticLocking db doc =
     (Inr (Some doc), db\<lparr>movers := map (\<lambda>m. if mover_id m = mover_id doc then doc else m) (movers db)\<rparr>)"
  by (simp add: saveWithOptimisticLocking_def save_def)


lemma find_after_replace:
  "find (\<lambda>m. mover_id m = i) xs = Some m \<Longrightarrow> mover_id doc = i \<Longrightarrow>
   find (\<lambda>m. mover_id m = i) (map (\<lambda>m. if mover_id m = i then doc else m) xs) = Some doc"
  by (induction xs) (auto split: if_splits)

lemma findById_after_save:
  "findById db i = Some m \<Longrightarrow> mover_id doc = i \<Longrightarrow>
   findById (db\<lparr>movers := map (\<lambda>m. if mover_id m = i then doc else m) (movers db)\<rparr>) i = Some doc"
  by (simp add: findById_def find_after_replace)

lemma findById_createActivityLog:
  "findById (createActivityLog db now mid ty p n d) i = findById db i"
  by (simp add: findById_def createActivityLog_def ActivityLogRepository_create_def)

section \<open>The mover invariant is preserved\<close>









section \<open>The items of a request\<close>

text \<open>When every string of a request is an ObjectId, the list of cast values is the
  list of the ObjectIds, each wrapped in \<open>Some\<close>.\<close>

lemma map_castObjectId:
  "\<forall>s \<in> set ids. castObjectId s \<noteq> None \<Longrightarrow>
   map castObjectId ids = map Some (List.map_filter castObjectId ids)"
  by (induction ids) (auto simp: List.map_filter_simps)

lemma findByIds_eq:
  "findByIds db ids =
     (case find (\<lambda>i. castObjectId i = None) ids of
        Some i \<Rightarrow> Inl (CastError i)
      | None \<Rightarrow> Inr (requestedItems db ids))"
  unfolding findByIds_def requestedItems_def by (rule refl)

lemma findByIds_cast:
  "\<forall>s \<in> set ids. castObjectId s \<noteq> None \<Longrightarrow> findByIds db ids = Inr (requestedItems db ids)"
  by (simp add: findByIds_eq find_None_iff split: option.splits)

lemma findByIds_Inr:
  "findByIds db ids = Inr found \<Longrightarrow> (\<forall>s \<in> set ids. castObjectId s \<noteq> None) \<and> found = requestedItems db ids"
  by (auto simp: findByIds_eq find_None_iff split: option.splits)

lemma requestedItems_cast:
  assumes "\<forall>s \<in> set ids. castObjectId s \<noteq> None"
  shows "requestedItems db ids =
         filter (\<lambda>item. item_id item \<in> set (List.map_filter castObjectId ids)) (magicItems db)"
  unfolding requestedItems_def map_castObjectId[OF assms] by (simp add: image_iff)

lemma storedItem_Some_iff:
  "storedItem db c \<noteq> None \<longleftrightarrow> c \<in> set (map item_id (magicItems db))"
  unfolding storedItem_def find_None_iff by auto

lemma itemOf_Some_iff:
  "itemOf db s \<noteq> None \<longleftrightarrow> (\<exists>c. castObjectId s = Some c \<and> c \<in> set (map item_id (magicItems db)))"
  using storedItem_Some_iff[of db] by (cases "castObjectId s") (auto simp: itemOf_def)

lemma itemOf_cast: "itemOf db s \<noteq> None \<Longrightarrow> castObjectId s \<noteq> None"
  by (cases "castObjectId s") (simp_all add: itemOf_def)

lemma list_all_itemOf_cast:
  "list_all (\<lambda>s. itemOf db s \<noteq> None) ids \<Longrightarrow> \<forall>s \<in> set ids. castObjectId s \<noteq> None"
  unfolding list_all_iff using itemOf_cast by blast

lemma length_filter_ids:
  assumes "distinct (map item_id reg)"
  shows "length (filter (\<lambda>item. item_id item \<in> set cs) reg) = card (set cs \<inter> set (map item_id reg))"
proof -
  let ?f = "filter (\<lambda>item. item_id item \<in> set cs) reg"
  have d: "distinct (map item_id ?f)" using assms by (simp add: distinct_map_filter)
  have "length ?f = length (map item_id ?f)" by simp
  also have "\<dots> = card (set (map item_id ?f))" using d by (simp only: distinct_card)
  also have "set (map item_id ?f) = set cs \<inter> set (map item_id reg)" by auto
  finally show ?thesis .
qed

lemma length_filter_ids_iff:
  assumes "distinct (map item_id reg)"
  shows "length (filter (\<lambda>item. item_id item \<in> set cs) reg) = length cs
         \<longleftrightarrow> distinct cs \<and> set cs \<subseteq> set (map item_id reg)"
proof -
  let ?R = "set (map item_id reg)"
  have le1: "card (set cs \<inter> ?R) \<le> card (set cs)" by (simp add: card_mono)
  have le2: "card (set cs) \<le> length cs" by (rule card_length)
  show ?thesis
  proof
    assume "length (filter (\<lambda>item. item_id item \<in> set cs) reg) = length cs"
    then have e: "card (set cs \<inter> ?R) = length cs" using length_filter_ids[OF assms] by simp
    then have c: "card (set cs) = length cs" using le1 le2 by linarith
    then have d: "distinct cs" by (simp add: card_distinct)
    have "card (set cs \<inter> ?R) = card (set cs)" using e c by simp
    then have "set cs \<inter> ?R = set cs" by (intro card_subset_eq) auto
    then show "distinct cs \<and> set cs \<subseteq> ?R" using d by auto
  next
    assume h: "distinct cs \<and> set cs \<subseteq> ?R"
    then have "set cs \<inter> ?R = set cs" by auto
    then show "length (filter (\<lambda>item. item_id item \<in> set cs) reg) = length cs"
      using length_filter_ids[OF assms, of cs] h by (simp add: distinct_card)
  qed
qed

lemma length_map_filter_cast:
  "\<forall>s \<in> set ids. castObjectId s \<noteq> None \<Longrightarrow> length (List.map_filter castObjectId ids) = length ids"
  by (induction ids) (auto simp: List.map_filter_simps)

text \<open>The item check passes exactly for the requests whose strings are ObjectIds of
  stored items, no ObjectId twice.\<close>

lemma validateItemsExist_iff:
  assumes "distinct (map item_id (magicItems db))"
  shows "validateItemsExist db ids = Inr () \<longleftrightarrow>
         list_all (\<lambda>s. itemOf db s \<noteq> None) ids \<and> distinct (map castObjectId ids)"
proof (cases "\<forall>s \<in> set ids. castObjectId s \<noteq> None")
  case False
  then obtain s where s: "s \<in> set ids" "castObjectId s = None" by auto
  then have "find (\<lambda>i. castObjectId i = None) ids \<noteq> None" by (auto simp: find_None_iff)
  then have "validateItemsExist db ids \<noteq> Inr ()"
    by (auto simp: validateItemsExist_def findByIds_eq split: option.splits)
  moreover have "\<not> list_all (\<lambda>s. itemOf db s \<noteq> None) ids"
  proof
    assume "list_all (\<lambda>s. itemOf db s \<noteq> None) ids"
    from list_all_itemOf_cast[OF this] s show False by blast
  qed
  ultimately show ?thesis by simp
next
  case True
  let ?cs = "List.map_filter castObjectId ids"
  have m: "map castObjectId ids = map Some ?cs" by (rule map_castObjectId[OF True])
  have l: "length ?cs = length ids" by (rule length_map_filter_cast[OF True])
  have v: "validateItemsExist db ids = Inr () \<longleftrightarrow>
           length (filter (\<lambda>item. item_id item \<in> set ?cs) (magicItems db)) = length ?cs"
    unfolding l by (simp add: validateItemsExist_def findByIds_cast[OF True] requestedItems_cast[OF True] Let_def)
  have d: "distinct (map castObjectId ids) = distinct ?cs"
    unfolding m by (simp add: distinct_map)
  have "set (map castObjectId ids) = Some ` set ?cs" unfolding m by simp
  then have c: "\<And>s c. s \<in> set ids \<Longrightarrow> castObjectId s = Some c \<Longrightarrow> c \<in> set ?cs"
    by (metis image_eqI image_iff list.set_map option.inject)
  have c': "\<And>c. c \<in> set ?cs \<Longrightarrow> \<exists>s \<in> set ids. castObjectId s = Some c"
    using \<open>set (map castObjectId ids) = Some ` set ?cs\<close> by (metis (no_types, lifting) image_iff list.set_map)
  have e: "list_all (\<lambda>s. itemOf db s \<noteq> None) ids \<longleftrightarrow> set ?cs \<subseteq> set (map item_id (magicItems db))"
  proof
    assume a: "list_all (\<lambda>s. itemOf db s \<noteq> None) ids"
    show "set ?cs \<subseteq> set (map item_id (magicItems db))"
    proof
      fix x assume "x \<in> set ?cs"
      then obtain s where s: "s \<in> set ids" "castObjectId s = Some x" using c' by blast
      then have "itemOf db s \<noteq> None" using a unfolding list_all_iff by blast
      then obtain c where "castObjectId s = Some c" "c \<in> set (map item_id (magicItems db))"
        unfolding itemOf_Some_iff by blast
      then show "x \<in> set (map item_id (magicItems db))" using s(2) by simp
    qed
  next
    assume a: "set ?cs \<subseteq> set (map item_id (magicItems db))"
    have "\<And>s. s \<in> set ids \<Longrightarrow> itemOf db s \<noteq> None"
    proof -
      fix s assume s: "s \<in> set ids"
      then obtain x where x: "castObjectId s = Some x" using True by auto
      then have "x \<in> set ?cs" using c[OF s] by simp
      then show "itemOf db s \<noteq> None" unfolding itemOf_Some_iff using a x by auto
    qed
    then show "list_all (\<lambda>s. itemOf db s \<noteq> None) ids" by (simp add: list_all_iff)
  qed
  show ?thesis unfolding v length_filter_ids_iff[OF assms] d e by auto
qed

lemma calculateTotalWeight_eq:
  assumes "list_all (\<lambda>s. itemOf db s \<noteq> None) ids"
  shows "calculateTotalWeight db ids = Inr (jsSum (map weight (requestedItems db ids)))"
proof -
  have "\<forall>s \<in> set ids. castObjectId s \<noteq> None"
    using assms by (rule list_all_itemOf_cast)
  then show ?thesis
    by (simp add: calculateTotalWeight_def findByIds_cast jsSum_def foldl_map)
qed


















section \<open>Sums on a grid\<close>

lemma onGridE:
  assumes "onGrid k x"
  obtains n where "x = of_nat n / 2 ^ k"
proof -
  have "0 \<le> x" using assms unfolding onGrid_def by (rule conjunct1)
  then have f: "0 \<le> \<lfloor>x * 2 ^ k\<rfloor>" by simp
  have "of_int \<lfloor>x * 2 ^ k\<rfloor> = x * 2 ^ k" using assms unfolding onGrid_def by (rule conjunct2)
  then have "x * 2 ^ k = of_int \<lfloor>x * 2 ^ k\<rfloor>" by (rule sym)
  also have "\<dots> = of_nat (nat \<lfloor>x * 2 ^ k\<rfloor>)" using f by simp
  finally have "x = of_nat (nat \<lfloor>x * 2 ^ k\<rfloor>) / 2 ^ k" by (simp add: field_simps)
  then show ?thesis by (rule that)
qed

lemma onGridI: "onGrid k (of_nat n / 2 ^ k)"
  by (simp add: onGrid_def)

lemma onGrid_0 [simp]: "onGrid k 0"
  by (simp add: onGrid_def)

lemma onGrid_nonneg: "onGrid k x \<Longrightarrow> 0 \<le> x"
  by (simp add: onGrid_def)

lemma onGrid_add:
  assumes "onGrid k x" and "onGrid k y"
  shows "onGrid k (x + y)"
proof -
  obtain a where a: "x = of_nat a / 2 ^ k" using assms(1) by (rule onGridE)
  obtain b where b: "y = of_nat b / 2 ^ k" using assms(2) by (rule onGridE)
  have "x + y = of_nat (a + b) / 2 ^ k" unfolding a b by (simp add: add_divide_distrib)
  then show ?thesis using onGridI[of k "a + b"] by simp
qed

lemma onGrid_sum_list: "\<forall>x \<in> set xs. onGrid k x \<Longrightarrow> onGrid k (sum_list xs)"
  by (induction xs) (simp_all add: onGrid_add)

lemma threshold_pow2: "(2::rat) ^ 53 / 2 ^ k = pow2 (53 - int k)"
  unfolding pow2_diff using pow2_nat[of k] by (simp add: pow2_def)

lemma threshold_finite: "(2::rat) ^ 53 / 2 ^ k < POSITIVE_INFINITY"
proof -
  have "(1::rat) \<le> 2 ^ k" by simp
  then have "(2::rat) ^ 53 / 2 ^ k \<le> 2 ^ 53" by (simp add: divide_le_eq mult_le_cancel_left1)
  moreover have "(2::rat) ^ 53 < POSITIVE_INFINITY" by (simp add: POSITIVE_INFINITY_def)
  ultimately show ?thesis by linarith
qed

text \<open>Below \<open>2^53\<close> steps the sum of two numbers of the grid is exact.\<close>

lemma jsAdd_grid:
  assumes "onGrid k x" and "onGrid k y" and "x + y \<le> 2 ^ 53 / 2 ^ k" and "k \<le> 1074"
  shows "jsAdd x y = x + y"
proof -
  obtain a where a: "x = of_nat a / 2 ^ k" using assms(1) by (rule onGridE)
  obtain b where b: "y = of_nat b / 2 ^ k" using assms(2) by (rule onGridE)
  have s: "x + y = of_nat (a + b) / 2 ^ k" unfolding a b by (simp add: add_divide_distrib)
  have "(of_nat (a + b) :: rat) \<le> 2 ^ 53" using assms(3) unfolding s by (simp add: divide_le_cancel)
  then have "(of_nat (a + b) :: rat) \<le> of_nat (2 ^ 53)" by simp
  then have le: "a + b \<le> 2 ^ 53" by (simp only: of_nat_le_iff)
  have r: "roundDouble (x + y) = x + y" unfolding s by (rule roundDouble_grid[OF le assms(4)])
  have x0: "0 \<le> x" and y0: "0 \<le> y" using assms(1,2) by (simp_all add: onGrid_nonneg)
  have fin: "x + y < POSITIVE_INFINITY" using assms(3) threshold_finite[of k] by linarith
  have "x \<noteq> POSITIVE_INFINITY" "y \<noteq> POSITIVE_INFINITY" using fin x0 y0 by linarith+
  moreover have "x \<noteq> - POSITIVE_INFINITY" "y \<noteq> - POSITIVE_INFINITY"
    using x0 y0 POSITIVE_INFINITY_pos by linarith+
  ultimately show ?thesis by (simp add: jsAdd_def r)
qed

text \<open>From \<open>2^53\<close> steps on the sum of two non-negative numbers stays there.\<close>

lemma jsAdd_threshold:
  assumes "0 \<le> x" and "0 \<le> y" and "2 ^ 53 / 2 ^ k \<le> x + y" and "k \<le> 1074"
  shows "2 ^ 53 / 2 ^ k \<le> jsAdd x y"
proof -
  have "pow2 (53 - int k) \<le> jsAdd x y"
    using assms by (intro jsAdd_lower) (simp_all add: threshold_pow2[symmetric])
  then show ?thesis by (simp only: threshold_pow2)
qed

lemma foldl_jsAdd_grid:
  assumes "k \<le> 1074" and "\<forall>w \<in> set ws. onGrid k w" and "onGrid k exact" and "0 \<le> acc"
    and "exact \<le> 2 ^ 53 / 2 ^ k \<longrightarrow> acc = exact"
    and "2 ^ 53 / 2 ^ k < exact \<longrightarrow> 2 ^ 53 / 2 ^ k \<le> acc"
  shows "(exact + sum_list ws \<le> 2 ^ 53 / 2 ^ k \<longrightarrow> foldl jsAdd acc ws = exact + sum_list ws) \<and>
         (2 ^ 53 / 2 ^ k < exact + sum_list ws \<longrightarrow> 2 ^ 53 / 2 ^ k \<le> foldl jsAdd acc ws)"
  using assms(2,3,4,5,6)
proof (induction ws arbitrary: acc exact)
  case Nil
  then show ?case by simp
next
  case (Cons w ws)
  let ?T = "(2::rat) ^ 53 / 2 ^ k"
  have w: "onGrid k w" and ws: "\<forall>w \<in> set ws. onGrid k w" using Cons.prems(1) by simp_all
  have w0: "0 \<le> w" using w by (rule onGrid_nonneg)
  have g: "onGrid k (exact + w)" using Cons.prems(2) w by (rule onGrid_add)
  have n: "0 \<le> jsAdd acc w" using Cons.prems(3) w0 by (rule jsAdd_nonneg)
  have a: "exact + w \<le> ?T \<longrightarrow> jsAdd acc w = exact + w"
  proof
    assume le: "exact + w \<le> ?T"
    then have "exact \<le> ?T" using w0 by linarith
    then have "acc = exact" using Cons.prems(4) by simp
    then show "jsAdd acc w = exact + w" using jsAdd_grid[OF Cons.prems(2) w le assms(1)] by simp
  qed
  have b: "?T < exact + w \<longrightarrow> ?T \<le> jsAdd acc w"
  proof
    assume gt: "?T < exact + w"
    have "?T \<le> acc + w"
    proof (cases "exact \<le> ?T")
      case True
      then have "acc = exact" using Cons.prems(4) by simp
      then show ?thesis using gt by simp
    next
      case False
      then have "?T \<le> acc" using Cons.prems(5) by simp
      then show ?thesis using w0 by linarith
    qed
    then show "?T \<le> jsAdd acc w" using jsAdd_threshold[OF Cons.prems(3) w0 _ assms(1)] by simp
  qed
  from Cons.IH[OF ws g n a b] show ?case by (simp add: add.assoc)
qed

lemma jsSum_nonneg: "\<forall>w \<in> set ws. 0 \<le> w \<Longrightarrow> 0 \<le> jsSum ws"
proof -
  have "\<And>acc. 0 \<le> acc \<Longrightarrow> \<forall>w \<in> set ws. 0 \<le> w \<Longrightarrow> 0 \<le> foldl jsAdd acc ws"
    by (induction ws) (simp_all add: jsAdd_nonneg)
  then show "\<forall>w \<in> set ws. 0 \<le> w \<Longrightarrow> 0 \<le> jsSum ws" by (simp add: jsSum_def)
qed

text \<open>A load that passes the capacity check of a mover whose limit is below \<open>2^53\<close> steps
  adds the exact sum of the weights.\<close>

lemma load_exact:
  assumes "k \<le> 1074" and "onGrid k cw" and "\<forall>w \<in> set ws. onGrid k w"
    and "jsAdd cw (jsSum ws) \<le> wl" and "wl < 2 ^ 53 / 2 ^ k"
  shows "jsAdd cw (jsSum ws) = cw + sum_list ws"
proof -
  let ?T = "(2::rat) ^ 53 / 2 ^ k"
  have f: "(sum_list ws \<le> ?T \<longrightarrow> jsSum ws = sum_list ws) \<and> (?T < sum_list ws \<longrightarrow> ?T \<le> jsSum ws)"
    using foldl_jsAdd_grid[OF assms(1,3), of 0 0] by (simp add: jsSum_def)
  have cw0: "0 \<le> cw" using assms(2) by (rule onGrid_nonneg)
  have s0: "0 \<le> jsSum ws"
  proof (rule jsSum_nonneg)
    show "\<forall>w \<in> set ws. 0 \<le> w" using assms(3) onGrid_nonneg by blast
  qed
  have lt: "jsAdd cw (jsSum ws) < ?T" using assms(4,5) by linarith
  have 1: "sum_list ws \<le> ?T"
  proof (rule ccontr)
    assume "\<not> sum_list ws \<le> ?T"
    then have "?T \<le> jsSum ws" using f by simp
    then have "?T \<le> cw + jsSum ws" using cw0 by linarith
    from jsAdd_threshold[OF cw0 s0 this assms(1)] lt show False by linarith
  qed
  then have e: "jsSum ws = sum_list ws" using f by simp
  have g: "onGrid k (sum_list ws)" using assms(3) by (rule onGrid_sum_list)
  have 2: "cw + sum_list ws \<le> ?T"
  proof (rule ccontr)
    assume "\<not> cw + sum_list ws \<le> ?T"
    then have "?T \<le> cw + jsSum ws" unfolding e by linarith
    from jsAdd_threshold[OF cw0 s0 this assms(1)] lt show False by linarith
  qed
  show ?thesis unfolding e by (rule jsAdd_grid[OF assms(2) g 2 assms(1)])
qed

section \<open>On a grid the weight of a mover is the exact sum\<close>















section \<open>The ids of the examples\<close>

lemma example_casts:
  "castObjectId featherId = Some featherId" "castObjectId scaleId = Some scaleId"
  "castObjectId golemId = Some golemId" "castObjectId featherIdUpper = Some featherId"
  "castObjectId anvilId = Some anvilId" "castObjectId pebbleId = Some pebbleId"
  by (simp_all add: castObjectId_def isHexDigit_def toLowerHex_def)

lemma castObjectId_malformed: "castObjectId ''i1'' = None"
  by (simp add: castObjectId_def)


section \<open>The invariant of a mover\<close>




section \<open>Ending a mission\<close>

text \<open>A mission count that is a natural number below \<open>2^53\<close> is incremented exactly.\<close>

lemma jsAdd_of_nat_1:
  assumes "n < 2 ^ 53"
  shows "jsAdd (of_nat n) 1 = of_nat n + 1"
proof -
  have "n + 1 \<le> 2 ^ 53" using assms by simp
  from roundDouble_of_nat[OF this] have r: "roundDouble (of_nat n + 1) = of_nat n + 1"
    by (simp add: add.commute)
  have "(of_nat n :: rat) < of_nat (2 ^ 53)" using assms by (simp only: of_nat_less_iff)
  then have "(of_nat n :: rat) < POSITIVE_INFINITY" by (simp add: POSITIVE_INFINITY_def)
  then have "(of_nat n :: rat) \<noteq> POSITIVE_INFINITY" by simp
  moreover have "(of_nat n :: rat) \<noteq> - POSITIVE_INFINITY"
    using POSITIVE_INFINITY_pos of_nat_0_le_iff[of n, where 'a = rat] by linarith
  moreover have "(1::rat) \<noteq> POSITIVE_INFINITY" "(1::rat) \<noteq> - POSITIVE_INFINITY"
    by (simp_all add: POSITIVE_INFINITY_def)
  ultimately show ?thesis by (simp add: jsAdd_def r)
qed

lemma validateMover_endMissionUpdate:
  "validateMover m \<Longrightarrow> validateMover (endMissionUpdate m)"
  by (simp add: validateMover_def endMissionUpdate_def jsAdd_nonneg)

text \<open>\<open>endMission\<close> on a stored mover, whatever its mission count: the new count is the
  number \<open>completedMissions + 1\<close>.\<close>

lemma endMission_general:
  assumes "findById db i = Some m" and "validateMover m"
  shows "MagicMoverService_endMission db now i =
    (if state m = ON_MISSION
     then (Inr (endMissionUpdate m),
           createActivityLog
             (db\<lparr>movers := map (\<lambda>x. if mover_id x = i then endMissionUpdate m else x) (movers db)\<rparr>)
             now i ACT_MISSION_ENDED ON_MISSION RESTING
             (noDetails\<lparr>d_itemCount := Some (length (items m)),
                        d_totalWeight := Some (currentWeight m),
                        d_completedMissions := Some (jsAdd (completedMissions m) 1)\<rparr>))
     else (Inl MustBeOnMission, db))"
proof (cases "state m = ON_MISSION")
  case False
  then show ?thesis using assms(1)
    by (simp add: MagicMoverService_endMission_def verifyMoverExists_def)
next
  case True
  let ?doc = "endMissionUpdate m"
  have id: "mover_id m = i" using assms(1) by (simp add: findById_SomeD)
  have v: "validateMover ?doc" using assms(2) by (rule validateMover_endMissionUpdate)
  have f: "findById db (mover_id ?doc) \<noteq> None" using assms(1) id by (simp add: endMissionUpdate_def)
  have r: "MagicMoverRepository_endMission db i =
     (Inr (Some ?doc), db\<lparr>movers := map (\<lambda>x. if mover_id x = mover_id ?doc then ?doc else x) (movers db)\<rparr>)"
    using assms(1) True save_ok[OF f v]
    by (simp add: MagicMoverRepository_endMission_def validateTransition_eq transition_table_def)
  have c: "completedMissions ?doc = jsAdd (completedMissions m) 1" "state ?doc = RESTING"
    "mover_id ?doc = i"
    using id by (simp_all add: endMissionUpdate_def)
  show ?thesis using assms(1) True r c
    by (simp add: MagicMoverService_endMission_def verifyMoverExists_def)
qed

text \<open>
  Claim C3, as amended. For a stored mover \<open>m\<close> (stored documents satisfy the schema
  validators) whose completedMissions is a natural number below \<open>2^53\<close>:
  if \<open>m\<close> is not ON_MISSION, \<open>endMission\<close> fails with the "must be on mission" error,
  which is not the state machine's invalid-transition error, and changes nothing;
  if \<open>m\<close> is ON_MISSION it succeeds, returns and stores \<open>m\<close> with items = [],
  currentWeight = 0, state = RESTING and completedMissions increased by exactly 1, and
  appends one MISSION_ENDED log entry. So it succeeds only from ON_MISSION.
\<close>

theorem endMission_spec:
  assumes "findById db i = Some m" and "validateMover m"
    and "completedMissions m = of_nat n" and "n < 2 ^ 53"
  shows "MagicMoverService_endMission db now i =
    (if state m = ON_MISSION
     then (Inr (m\<lparr>items := [], currentWeight := 0, state := RESTING,
                  completedMissions := completedMissions m + 1\<rparr>),
           createActivityLog
             (db\<lparr>movers := map (\<lambda>x. if mover_id x = i
                                    then m\<lparr>items := [], currentWeight := 0, state := RESTING,
                                           completedMissions := completedMissions m + 1\<rparr>
                                    else x) (movers db)\<rparr>)
             now i ACT_MISSION_ENDED ON_MISSION RESTING
             (noDetails\<lparr>d_itemCount := Some (length (items m)),
                        d_totalWeight := Some (currentWeight m),
                        d_completedMissions := Some (completedMissions m + 1)\<rparr>))
     else (Inl MustBeOnMission, db))
    \<and> findById (snd (MagicMoverService_endMission db now i)) i =
        Some (if state m = ON_MISSION
              then m\<lparr>items := [], currentWeight := 0, state := RESTING,
                     completedMissions := completedMissions m + 1\<rparr>
              else m)"
proof -
  let ?m' = "m\<lparr>items := [], currentWeight := 0, state := RESTING,
                completedMissions := completedMissions m + 1\<rparr>"
  have id: "mover_id m = i" using assms(1) by (simp add: findById_SomeD)
  have c: "jsAdd (completedMissions m) 1 = completedMissions m + 1"
    unfolding assms(3) by (rule jsAdd_of_nat_1[OF assms(4)])
  have u: "endMissionUpdate m = ?m'" by (simp add: endMissionUpdate_def c)
  have eq: "MagicMoverService_endMission db now i =
    (if state m = ON_MISSION
     then (Inr ?m',
           createActivityLog
             (db\<lparr>movers := map (\<lambda>x. if mover_id x = i then ?m' else x) (movers db)\<rparr>)
             now i ACT_MISSION_ENDED ON_MISSION RESTING
             (noDetails\<lparr>d_itemCount := Some (length (items m)),
                        d_totalWeight := Some (currentWeight m),
                        d_completedMissions := Some (completedMissions m + 1)\<rparr>))
     else (Inl MustBeOnMission, db))"
    unfolding endMission_general[OF assms(1,2)] u c ..
  have "mover_id ?m' = i" using id by simp
  from findById_after_save[OF assms(1) this] have "findById (snd (MagicMoverService_endMission db now i)) i =
        Some (if state m = ON_MISSION then ?m' else m)"
    unfolding eq using assms(1) by (simp add: findById_createActivityLog)
  with eq show ?thesis by (rule conjI)
qed

theorem endMission_spec_witness:
  "findById (moverDb 100 ON_MISSION [featherId] (1/2)) ''m1'' = Some (mover1 100 ON_MISSION [featherId] (1/2)) \<and>
   validateMover (mover1 100 ON_MISSION [featherId] (1/2)) \<and>
   completedMissions (mover1 100 ON_MISSION [featherId] (1/2)) = of_nat 0 \<and>
   (0::nat) < 2 ^ 53 \<and>
   fst (MagicMoverService_endMission (moverDb 100 ON_MISSION [featherId] (1/2)) 9 ''m1'') =
     Inr ((mover1 100 RESTING [] 0)\<lparr>completedMissions := 1\<rparr>) \<and>
   findById (snd (MagicMoverService_endMission (moverDb 100 ON_MISSION [featherId] (1/2)) 9 ''m1'')) ''m1'' =
     Some ((mover1 100 RESTING [] 0)\<lparr>completedMissions := 1\<rparr>)"
proof -
  have h1: "findById (moverDb 100 ON_MISSION [featherId] (1/2)) ''m1'' = Some (mover1 100 ON_MISSION [featherId] (1/2))"
    by (simp add: findById_def example_defs)
  have h2: "validateMover (mover1 100 ON_MISSION [featherId] (1/2))"
    by (simp add: validateMover_def mover1_def numbers)
  have h3: "completedMissions (mover1 100 ON_MISSION [featherId] (1/2)) = of_nat 0"
    by (simp add: mover1_def)
  have h4: "(0::nat) < 2 ^ 53" by simp
  from endMission_spec[OF h1 h2 h3 h4, of 9] h1 h2 h3 h4 show ?thesis
    by (simp add: findById_createActivityLog) (simp add: findById_def example_defs)
qed

text \<open>
  Claim C3 as stated fails from \<open>2^53\<close> completed missions on: \<open>2^53 + 1\<close> is not a
  number, and \<open>completedMissions += 1\<close> leaves the count as it is. The mover is one that
  a create request stores.
\<close>

theorem endMission_count_unchanged:
  "snd (MagicMoverService_create \<lparr>movers = [], magicItems = [], activityLogs = []\<rparr> ''m1'' veteranDto) = veteranDb \<and>
   findById veteranDb ''m1'' = Some veteran \<and>
   validateMover veteran \<and>
   state veteran = ON_MISSION \<and>
   completedMissions veteran = 9007199254740992 \<and>
   fst (MagicMoverService_endMission veteranDb 9 ''m1'') = Inr (veteran\<lparr>state := RESTING\<rparr>) \<and>
   map completedMissions (movers (snd (MagicMoverService_endMission veteranDb 9 ''m1''))) = [9007199254740992]"
  by (simp add: eval_defs veteranDb_def veteran_def veteranDto_def numbers)

section \<open>Loading items\<close>

text \<open>For a request whose strings are ObjectIds of stored items, no ObjectId twice, the
  item check passes and the total weight is the sum, as numbers, of the items' weights
  in stored order.\<close>

lemma service_load_found:
  assumes "findById db i = Some m"
    and "distinct (map item_id (magicItems db))"
    and "list_all (\<lambda>s. itemOf db s \<noteq> None) itemIds" and "distinct (map castObjectId itemIds)"
  shows "MagicMoverService_loadItems db now i itemIds =
     (case MagicMoverRepository_loadItems db i itemIds (jsSum (map weight (requestedItems db itemIds))) of
        (Inl e, db') \<Rightarrow> (Inl e, db')
      | (Inr None, db') \<Rightarrow> (Inl OperationFailed, db')
      | (Inr (Some updatedMover), db') \<Rightarrow>
          (Inr updatedMover,
           createActivityLog db' now i ACT_LOADING (state m) (state updatedMover)
             (noDetails\<lparr>d_itemIds := Some itemIds, d_itemCount := Some (length itemIds),
                        d_totalWeight := Some (jsSum (map weight (requestedItems db itemIds)))\<rparr>)))"
proof -
  have v: "validateItemsExist db itemIds = Inr ()"
    using validateItemsExist_iff[OF assms(2), of itemIds] assms(3,4) by simp
  have tw: "calculateTotalWeight db itemIds = Inr (jsSum (map weight (requestedItems db itemIds)))"
    by (rule calculateTotalWeight_eq[OF assms(3)])
  show ?thesis using assms(1)
    by (simp add: MagicMoverService_loadItems_def verifyMoverExists_def v tw Let_def)
qed

text \<open>On a grid, for a limit below \<open>2^53\<close> steps, the capacity check decides whether the
  exact sum is within the limit.\<close>

lemma capacity_check_grid:
  assumes "k \<le> 1074" and "onGrid k cw" and "\<forall>w \<in> set ws. onGrid k w" and "wl < 2 ^ 53 / 2 ^ k"
  shows "jsAdd cw (jsSum ws) \<le> wl \<longleftrightarrow> cw + sum_list ws \<le> wl"
proof
  assume "jsAdd cw (jsSum ws) \<le> wl"
  then show "cw + sum_list ws \<le> wl" using load_exact[OF assms(1,2,3) _ assms(4)] by simp
next
  assume le: "cw + sum_list ws \<le> wl"
  have cw0: "0 \<le> cw" using assms(2) by (rule onGrid_nonneg)
  have g: "onGrid k (sum_list ws)" using assms(3) by (rule onGrid_sum_list)
  have "sum_list ws \<le> 2 ^ 53 / 2 ^ k" using le cw0 assms(4) by linarith
  then have e: "jsSum ws = sum_list ws"
    using foldl_jsAdd_grid[OF assms(1,3), of 0 0] by (simp add: jsSum_def)
  have "cw + sum_list ws \<le> 2 ^ 53 / 2 ^ k" using le assms(4) by linarith
  from jsAdd_grid[OF assms(2) g this assms(1)] show "jsAdd cw (jsSum ws) \<le> wl"
    unfolding e using le by simp
qed

text \<open>
  Claim C4, as amended. Let \<open>m\<close> be a stored mover that is RESTING or LOADING (stored
  documents satisfy the schema validators), and \<open>itemIds\<close> ObjectIds of stored items, no
  ObjectId twice and no string already aboard \<open>m\<close>. The incoming weight is the sum of the
  items' weights added as numbers, in stored order. If the number currentWeight +
  incoming weight exceeds weightLimit (strictly), \<open>loadItems\<close> fails with the
  weight-limit error carrying the current weight, the incoming weight and the limit, and
  the database is returned unchanged. Otherwise the load is saved (up to the limit
  exactly included). By \<open>capacity_check_grid\<close> the two additions are exact on a grid.
\<close>

theorem loadItems_capacity:
  assumes "findById db i = Some m"
    and "validateMover m"
    and "state m \<noteq> ON_MISSION"
    and "distinct (map item_id (magicItems db))"
    and "list_all (\<lambda>item. 0 \<le> weight item) (magicItems db)"
    and "list_all (\<lambda>s. itemOf db s \<noteq> None) itemIds"
    and "distinct (map castObjectId itemIds)"
    and "set itemIds \<inter> set (items m) = {}"
  shows "MagicMoverService_loadItems db now i itemIds =
    (if jsAdd (currentWeight m) (jsSum (map weight (requestedItems db itemIds))) > weightLimit m
     then (Inl (WeightLimitExceeded (currentWeight m) (jsSum (map weight (requestedItems db itemIds)))
                  (weightLimit m)), db)
     else (Inr (m\<lparr>state := LOADING, items := items m @ itemIds,
                  currentWeight := jsAdd (currentWeight m) (jsSum (map weight (requestedItems db itemIds)))\<rparr>),
           createActivityLog
             (db\<lparr>movers := map (\<lambda>x. if mover_id x = i
                  then m\<lparr>state := LOADING, items := items m @ itemIds,
                         currentWeight := jsAdd (currentWeight m) (jsSum (map weight (requestedItems db itemIds)))\<rparr>
                  else x) (movers db)\<rparr>)
             now i ACT_LOADING (state m) LOADING
             (noDetails\<lparr>d_itemIds := Some itemIds, d_itemCount := Some (length itemIds),
                        d_totalWeight := Some (jsSum (map weight (requestedItems db itemIds)))\<rparr>)))"
proof -
  let ?tw = "jsSum (map weight (requestedItems db itemIds))"
  let ?doc = "m\<lparr>state := LOADING, items := items m @ itemIds, currentWeight := jsAdd (currentWeight m) ?tw\<rparr>"
  have id: "mover_id m = i" using assms(1) by (simp add: findById_SomeD)
  have tr: "validateTransition (state m) LOADING ''load'' = Inr ()"
    using assms(3) by (cases "state m") (simp_all add: validateTransition_eq transition_table_def)
  have nd: "filter (\<lambda>itemId. itemId \<in> set (items m)) itemIds = []"
    using assms(8) by (auto simp: filter_empty_conv)
  have tw0: "0 \<le> ?tw"
  proof (rule jsSum_nonneg)
    show "\<forall>w \<in> set (map weight (requestedItems db itemIds)). 0 \<le> w"
      using assms(5) by (auto simp: requestedItems_def list_all_iff)
  qed
  have v: "validateMover ?doc"
    using assms(2) tw0 by (simp add: validateMover_def jsAdd_nonneg)
  have sv: "saveWithOptimisticLocking db ?doc =
     (Inr (Some ?doc), db\<lparr>movers := map (\<lambda>x. if mover_id x = i then ?doc else x) (movers db)\<rparr>)"
    using assms(1) id v by (simp add: saveWithOptimisticLocking_def save_def)
  have repo: "MagicMoverRepository_loadItems db i itemIds ?tw =
     (if jsAdd (currentWeight m) ?tw > weightLimit m
      then (Inl (WeightLimitExceeded (currentWeight m) ?tw (weightLimit m)), db)
      else saveWithOptimisticLocking db ?doc)"
    using assms(1) by (simp add: MagicMoverRepository_loadItems_def tr nd validateWeightLimit_def not_le)
  show ?thesis
    unfolding service_load_found[OF assms(1,4,6,7)] repo sv by simp
qed

theorem loadItems_capacity_witness:
  "findById (moverDb 10 RESTING [] 0) ''m1'' = Some (mover1 10 RESTING [] 0) \<and>
   validateMover (mover1 10 RESTING [] 0) \<and>
   state (mover1 10 RESTING [] 0) \<noteq> ON_MISSION \<and>
   distinct (map item_id (magicItems (moverDb 10 RESTING [] 0))) \<and>
   list_all (\<lambda>item. 0 \<le> weight item) (magicItems (moverDb 10 RESTING [] 0)) \<and>
   list_all (\<lambda>s. itemOf (moverDb 10 RESTING [] 0) s \<noteq> None) [golemId] \<and>
   distinct (map castObjectId [golemId]) \<and>
   set [golemId] \<inter> set (items (mover1 10 RESTING [] 0)) = {} \<and>
   MagicMoverService_loadItems (moverDb 10 RESTING [] 0) 4 ''m1'' [golemId] =
     (Inl (WeightLimitExceeded 0 15 10), moverDb 10 RESTING [] 0)"
proof -
  let ?db = "moverDb 10 RESTING [] 0"
  let ?m = "mover1 10 RESTING [] 0"
  have h1: "findById ?db ''m1'' = Some ?m" by (simp add: findById_def example_defs)
  have h2: "validateMover ?m" by (simp add: validateMover_def mover1_def numbers)
  have h3: "state ?m \<noteq> ON_MISSION" by (simp add: mover1_def)
  have h4: "distinct (map item_id (magicItems ?db))" by (simp add: example_defs)
  have h5: "list_all (\<lambda>item. 0 \<le> weight item) (magicItems ?db)" by (simp add: example_defs)
  have h6: "list_all (\<lambda>s. itemOf ?db s \<noteq> None) [golemId]"
    by (simp add: itemOf_def storedItem_def example_casts example_defs)
  have h7: "distinct (map castObjectId [golemId])" by simp
  have h8: "set [golemId] \<inter> set (items ?m) = {}" by (simp add: mover1_def)
  have w: "jsSum (map weight (requestedItems ?db [golemId])) = 15"
    by (simp add: requestedItems_def jsSum_def example_casts example_defs numbers)
  from loadItems_capacity[OF h1 h2 h3 h4 h5 h6 h7 h8, of 4] have
    "MagicMoverService_loadItems ?db 4 ''m1'' [golemId] = (Inl (WeightLimitExceeded 0 15 10), ?db)"
    unfolding w by (simp add: mover1_def numbers)
  with h1 h2 h3 h4 h5 h6 h7 h8 show ?thesis by blast
qed

text \<open>
  Claim C4 as stated fails where the addition rounds. A mover of limit \<open>10^16\<close> has an
  anvil of weight \<open>10^16\<close> aboard and loads a pebble of weight 1. Its current weight plus
  the incoming weight exceeds the limit by 1, but \<open>10^16 + 1\<close> is the number \<open>10^16\<close>:
  the load is accepted, and the mover stores the weight \<open>10^16\<close>.
\<close>

theorem loadItems_over_limit_accepted:
  "findById heavyDb ''m1'' = Some (mover1 10000000000000000 LOADING [anvilId] 10000000000000000) \<and>
   itemWeight heavyDb pebbleId = 1 \<and>
   jsSum (map weight (requestedItems heavyDb [pebbleId])) = 1 \<and>
   weightLimit (mover1 10000000000000000 LOADING [anvilId] 10000000000000000)
     < currentWeight (mover1 10000000000000000 LOADING [anvilId] 10000000000000000) + 1 \<and>
   fst (MagicMoverService_loadItems heavyDb 4 ''m1'' [pebbleId]) =
     Inr (mover1 10000000000000000 LOADING [anvilId, pebbleId] 10000000000000000)"
  by (simp add: eval_defs heavyDb_def mover1_def itemWeight_def itemOf_def storedItem_def
      requestedItems_def jsSum_def example_casts numbers)




text \<open>The duplicate check compares strings, the item check ObjectIds: a mover that has
  the feather aboard accepts the feather's id written in upper case, and then has the
  same item aboard twice, its weight counted twice.\<close>

lemma loadItems_same_item_twice:
  "itemOf (moverDb 100 LOADING [featherId] (1/2)) featherIdUpper =
     itemOf (moverDb 100 LOADING [featherId] (1/2)) featherId \<and>
   fst (MagicMoverService_loadItems (moverDb 100 LOADING [featherId] (1/2)) 4 ''m1'' [featherIdUpper]) =
     Inr (mover1 100 LOADING [featherId, featherIdUpper] 1)"
  by (simp add: eval_defs example_defs itemOf_def storedItem_def example_casts numbers)

text \<open>A request that repeats an id is rejected by the item-existence check (the
  registry returns the item once, so the counts differ), with an empty list of missing
  ids, before any duplicate check; so is a request that names one item in two
  spellings, with the spelling that is not the string form of the id reported missing.\<close>

lemma loadItems_repeated_id:
  "MagicMoverService_loadItems (moverDb 100 LOADING [featherId] (1/2)) 4 ''m1'' [featherId, featherId] =
     (Inl (ItemsNotFound []), moverDb 100 LOADING [featherId] (1/2)) \<and>
   MagicMoverService_loadItems (moverDb 100 LOADING [] 0) 4 ''m1'' [featherId, featherIdUpper] =
     (Inl (ItemsNotFound [featherIdUpper]), moverDb 100 LOADING [] 0)"
  by (simp add: eval_defs example_defs example_casts numbers)

text \<open>A string that is no ObjectId fails the cast of the query.\<close>

lemma loadItems_malformed_id:
  "MagicMoverService_loadItems (moverDb 100 LOADING [] 0) 4 ''m1'' [featherId, ''i1''] =
     (Inl (CastError ''i1''), moverDb 100 LOADING [] 0)"
  by (simp add: eval_defs example_defs example_casts castObjectId_malformed)

text \<open>
  Claim C10. For a stored RESTING mover within its limit (as a mover with no cargo and
  weight 0 is) and the empty list of ids, \<open>loadItems\<close> succeeds: the mover becomes LOADING
  with items, currentWeight and every other field unchanged, and one LOADING log entry
  with no item ids, itemCount 0 and totalWeight 0 is appended.
\<close>

theorem loadItems_empty:
  assumes "findById db i = Some m" and "state m = RESTING" and "validateMover m"
    and "currentWeight m \<le> weightLimit m"
  shows "MagicMoverService_loadItems db now i [] =
    (Inr (m\<lparr>state := LOADING\<rparr>),
     createActivityLog
       (db\<lparr>movers := map (\<lambda>x. if mover_id x = i then m\<lparr>state := LOADING\<rparr> else x) (movers db)\<rparr>)
       now i ACT_LOADING RESTING LOADING
       (noDetails\<lparr>d_itemIds := Some [], d_itemCount := Some 0, d_totalWeight := Some 0\<rparr>))
    \<and> findById (snd (MagicMoverService_loadItems db now i [])) i =
        Some \<lparr>mover_id = mover_id m, name = name m, weightLimit = weightLimit m,
              currentWeight = currentWeight m, state = LOADING, items = items m,
              completedMissions = completedMissions m\<rparr>"
proof -
  have id: "mover_id m = i" using assms(1) by (simp add: findById_SomeD)
  let ?m' = "m\<lparr>state := LOADING\<rparr>"
  have z: "jsAdd (currentWeight m) 0 = currentWeight m"
    using assms(3) by (simp add: validateMover_def jsAdd_0_right)
  have v: "validateMover ?m'" using assms(3) by (simp add: validateMover_def)
  have f: "findById db (mover_id ?m') \<noteq> None" using assms(1) id by simp
  have r: "MagicMoverRepository_loadItems db i [] 0 =
     (Inr (Some ?m'), db\<lparr>movers := map (\<lambda>x. if mover_id x = mover_id ?m' then ?m' else x) (movers db)\<rparr>)"
    using assms(1,2,4) save_ok[OF f v]
    by (simp add: MagicMoverRepository_loadItems_def validateTransition_eq transition_table_def
        validateWeightLimit_def z)
  have eq: "MagicMoverService_loadItems db now i [] =
    (Inr ?m',
     createActivityLog
       (db\<lparr>movers := map (\<lambda>x. if mover_id x = i then ?m' else x) (movers db)\<rparr>)
       now i ACT_LOADING RESTING LOADING
       (noDetails\<lparr>d_itemIds := Some [], d_itemCount := Some 0, d_totalWeight := Some 0\<rparr>))"
    using assms(1,2) id r
    by (simp add: MagicMoverService_loadItems_def verifyMoverExists_def validateItemsExist_def
        calculateTotalWeight_def findByIds_def)
  have "mover_id ?m' = i" using id by simp
  from findById_after_save[OF assms(1) this]
  have "findById (snd (MagicMoverService_loadItems db now i [])) i = Some ?m'"
    unfolding eq by (simp add: findById_createActivityLog)
  moreover have "?m' = \<lparr>mover_id = mover_id m, name = name m, weightLimit = weightLimit m,
              currentWeight = currentWeight m, state = LOADING, items = items m,
              completedMissions = completedMissions m\<rparr>"
    by simp
  ultimately show ?thesis using eq by simp
qed

theorem loadItems_empty_witness:
  "findById (moverDb 100 RESTING [] 0) ''m1'' = Some (mover1 100 RESTING [] 0) \<and>
   state (mover1 100 RESTING [] 0) = RESTING \<and>
   validateMover (mover1 100 RESTING [] 0) \<and>
   currentWeight (mover1 100 RESTING [] 0) \<le> weightLimit (mover1 100 RESTING [] 0) \<and>
   fst (MagicMoverService_loadItems (moverDb 100 RESTING [] 0) 9 ''m1'' []) = Inr (mover1 100 LOADING [] 0) \<and>
   activityLogs (snd (MagicMoverService_loadItems (moverDb 100 RESTING [] 0) 9 ''m1'' [])) =
     [\<lparr>moverId = ''m1'', activityType = ACT_LOADING,
       details = \<lparr>d_previousState = Some RESTING, d_newState = Some LOADING, d_itemIds = Some [],
                  d_itemCount = Some 0, d_totalWeight = Some 0, d_completedMissions = None\<rparr>,
       createdAt = 9\<rparr>]"
proof -
  have h1: "findById (moverDb 100 RESTING [] 0) ''m1'' = Some (mover1 100 RESTING [] 0)"
    by (simp add: findById_def example_defs)
  have h2: "state (mover1 100 RESTING [] 0) = RESTING" by (simp add: mover1_def)
  have h3: "validateMover (mover1 100 RESTING [] 0)"
    by (simp add: validateMover_def mover1_def numbers)
  have h4: "currentWeight (mover1 100 RESTING [] 0) \<le> weightLimit (mover1 100 RESTING [] 0)"
    by (simp add: mover1_def)
  from loadItems_empty[OF h1 h2 h3 h4, of 9] h1 h2 h3 h4 show ?thesis
    by (simp add: mover1_def createActivityLog_def ActivityLogRepository_create_def noDetails_def
        moverDb_def registryDb_def)
qed

section \<open>Unloading\<close>

text \<open>
  Claim C6. For a stored mover \<open>m\<close>: \<open>unloadItems\<close> succeeds exactly when \<open>m\<close> is LOADING
  (from RESTING and ON_MISSION the state machine rejects it and nothing changes); on
  success it returns and stores \<open>m\<close> with items = [], currentWeight = 0 and
  state = RESTING, while id, name, weightLimit and completedMissions are as before.
\<close>

theorem unloadItems_spec:
  assumes "findById db i = Some m" and "validateMover m"
  shows "MagicMoverService_unloadItems db now i =
    (if state m = LOADING
     then (Inr (m\<lparr>items := [], currentWeight := 0, state := RESTING\<rparr>),
           createActivityLog
             (db\<lparr>movers := map (\<lambda>x. if mover_id x = i
                                    then m\<lparr>items := [], currentWeight := 0, state := RESTING\<rparr>
                                    else x) (movers db)\<rparr>)
             now i ACT_UNLOADING LOADING RESTING
             (noDetails\<lparr>d_itemCount := Some (length (items m)),
                        d_totalWeight := Some (currentWeight m)\<rparr>))
     else (Inl (InvalidStateTransition (state m) RESTING ''unload''), db))
    \<and> findById (snd (MagicMoverService_unloadItems db now i)) i =
        Some (if state m = LOADING
              then \<lparr>mover_id = mover_id m, name = name m, weightLimit = weightLimit m,
                    currentWeight = 0, state = RESTING, items = [],
                    completedMissions = completedMissions m\<rparr>
              else m)"
proof -
  have id: "mover_id m = i" using assms(1) by (simp add: findById_SomeD)
  let ?m' = "m\<lparr>items := [], currentWeight := 0, state := RESTING\<rparr>"
  have eq: "MagicMoverService_unloadItems db now i =
    (if state m = LOADING
     then (Inr ?m',
           createActivityLog
             (db\<lparr>movers := map (\<lambda>x. if mover_id x = i then ?m' else x) (movers db)\<rparr>)
             now i ACT_UNLOADING LOADING RESTING
             (noDetails\<lparr>d_itemCount := Some (length (items m)),
                        d_totalWeight := Some (currentWeight m)\<rparr>))
     else (Inl (InvalidStateTransition (state m) RESTING ''unload''), db))"
  proof (cases "state m = LOADING")
    case False
    then have "validateTransition (state m) RESTING ''unload'' =
        Inl (InvalidStateTransition (state m) RESTING ''unload'')"
      by (cases "state m") (simp_all add: validateTransition_eq transition_table_def)
    then show ?thesis using assms(1) False
      by (simp add: MagicMoverService_unloadItems_def verifyMoverExists_def
          MagicMoverRepository_unloadItems_def)
  next
    case True
    have v: "validateMover ?m'" using assms(2) by (simp add: validateMover_def)
    have f: "findById db (mover_id ?m') \<noteq> None" using assms(1) id by simp
    have r: "MagicMoverRepository_unloadItems db i =
       (Inr (Some ?m'), db\<lparr>movers := map (\<lambda>x. if mover_id x = mover_id ?m' then ?m' else x) (movers db)\<rparr>)"
      using assms(1) True save_ok[OF f v]
      by (simp add: MagicMoverRepository_unloadItems_def validateTransition_eq transition_table_def)
    show ?thesis using assms(1) True id r
      by (simp add: MagicMoverService_unloadItems_def verifyMoverExists_def)
  qed
  have "mover_id ?m' = i" using id by simp
  from findById_after_save[OF assms(1) this]
  have "findById (snd (MagicMoverService_unloadItems db now i)) i =
        Some (if state m = LOADING then ?m' else m)"
    unfolding eq using assms(1) by (simp add: findById_createActivityLog)
  moreover have "?m' = \<lparr>mover_id = mover_id m, name = name m, weightLimit = weightLimit m,
                    currentWeight = 0, state = RESTING, items = [],
                    completedMissions = completedMissions m\<rparr>"
    by simp
  ultimately show ?thesis using eq by simp
qed

theorem unloadItems_spec_witness:
  "findById (moverDb 100 LOADING [featherId] (1/2)) ''m1'' = Some (mover1 100 LOADING [featherId] (1/2)) \<and>
   validateMover (mover1 100 LOADING [featherId] (1/2)) \<and>
   fst (MagicMoverService_unloadItems (moverDb 100 LOADING [featherId] (1/2)) 9 ''m1'') =
     Inr (mover1 100 RESTING [] 0) \<and>
   findById (snd (MagicMoverService_unloadItems (moverDb 100 LOADING [featherId] (1/2)) 9 ''m1'')) ''m1'' =
     Some (mover1 100 RESTING [] 0)"
proof -
  have h1: "findById (moverDb 100 LOADING [featherId] (1/2)) ''m1'' = Some (mover1 100 LOADING [featherId] (1/2))"
    by (simp add: findById_def example_defs)
  have h2: "validateMover (mover1 100 LOADING [featherId] (1/2))"
    by (simp add: validateMover_def mover1_def numbers)
  from unloadItems_spec[OF h1 h2, of 9] h1 h2 show ?thesis
    by (simp add: findById_createActivityLog) (simp add: findById_def example_defs)
qed


section \<open>Creating items\<close>

lemma dropWhile_hd: "xs \<noteq> [] \<Longrightarrow> \<not> P (hd xs) \<Longrightarrow> dropWhile P xs = xs"
  by (cases xs) simp_all

text \<open>A name that neither starts nor ends with whitespace is stored as it is.\<close>

lemma trim_clean:
  assumes "nm \<noteq> []" and "\<not> is_ws (hd nm)" and "\<not> is_ws (last nm)"
  shows "trim nm = nm"
proof -
  have a: "dropWhile is_ws nm = nm" using assms(1,2) by (rule dropWhile_hd)
  have "rev nm \<noteq> []" using assms(1) by simp
  moreover have "\<not> is_ws (hd (rev nm))" using assms(1,3) by (simp add: hd_rev)
  ultimately have b: "dropWhile is_ws (rev nm) = rev nm" by (rule dropWhile_hd)
  show ?thesis by (simp add: trim_def a b)
qed





section \<open>Leaderboard\<close>

lemma set_uniq: "set (uniq xs) = set xs"
  by (induction xs) auto

lemma in_set_map_filter:
  "y \<in> set (List.map_filter f xs) \<longleftrightarrow> (\<exists>x \<in> set xs. f x = Some y)"
  by (induction xs) (auto split: option.splits)

text \<open>Whatever the counts, every stored mover with a LOADING entry for the item is in
  the result: nothing removes a mover whose count is zero.\<close>

lemma topPerformers_keeps_every_loader:
  assumes "item \<noteq> []"
    and "entry \<in> set (activityLogs db)"
    and "activityType entry = ACT_LOADING"
    and "d_itemIds (details entry) = Some xs" and "item \<in> set xs"
    and "findById db (moverId entry) = Some m"
  shows "m \<in> set (getTopPerformers db (Some item))"
proof -
  let ?loadings = "filter (\<lambda>log. activityType log = ACT_LOADING \<and>
                             (case d_itemIds (details log) of None \<Rightarrow> False | Some xs \<Rightarrow> item \<in> set xs))
                      (activityLogs db)"
  have l: "entry \<in> set ?loadings" using assms(2,3,4,5) by simp
  then have mem: "moverId entry \<in> set (uniq (map moverId ?loadings))"
    unfolding set_uniq set_map by (rule imageI)
  then have ne: "uniq (map moverId ?loadings) \<noteq> []" by auto
  show ?thesis
    using assms(1,6) mem ne
    by (auto simp: getTopPerformers_def Let_def in_set_map_filter image_iff)
qed

lemma run_loadedOnly:
  "run registryDb loadedOnly =
     \<lparr>movers = [mover1 100 LOADING [featherId] (1/2)],
      magicItems = [phoenixFeather, dragonScale, golemFragment],
      activityLogs = [\<lparr>moverId = ''m1'', activityType = ACT_LOADING,
         details = \<lparr>d_previousState = Some RESTING, d_newState = Some LOADING, d_itemIds = Some [featherId],
                    d_itemCount = Some 1, d_totalWeight = Some (1/2), d_completedMissions = None\<rparr>,
         createdAt = 1\<rparr>]\<rparr>"
  by (simp add: loadedOnly_def eval_defs example_defs example_casts numbers)

text \<open>
  Claim C7 at a failing input. A mover that has loaded the feather and has ended no mission
  has zero qualifying missions, so the claim excludes it; \<open>getTopPerformers\<close> returns it:
  the function never filters on the count.
\<close>

theorem topPerformers_without_mission:
  "getTopPerformers (run registryDb loadedOnly) (Some featherId) = [mover1 100 LOADING [featherId] (1/2)] \<and>
   qualifyingMissions (run registryDb loadedOnly) featherId ''m1'' = 0"
  unfolding run_loadedOnly
  by (simp add: top_defs findById_def mover1_def)

text \<open>
  The order differs as well: the function counts the qualifying loadings that have a
  later mission end, not the mission ends after a qualifying loading. Here m1 has two
  qualifying missions and m2 has one, and m2 comes first.
\<close>

lemma topPerformers_order:
  "map mover_id (getTopPerformers (run registryDb twoMovers) (Some featherId)) = [''m2'', ''m1''] \<and>
   qualifyingMissions (run registryDb twoMovers) featherId ''m1'' = 2 \<and>
   qualifyingMissions (run registryDb twoMovers) featherId ''m2'' = 1"
  by (simp add: twoMovers_def eval_defs example_defs top_defs example_casts numbers)

section \<open>Concurrent requests\<close>

lemma endMission_phases:
  "MagicMoverService_endMission db now i =
     (case endMission_prepare db i of
        Inl e \<Rightarrow> (Inl e, db)
      | Inr p \<Rightarrow> endMission_commit db now i p)"
  by (auto simp: MagicMoverService_endMission_def endMission_prepare_def endMission_commit_def
      MagicMoverRepository_endMission_def verifyMoverExists_def Let_def
      split: option.splits sum.splits prod.splits)

lemma save_never_VersionError: "fst (save db doc) \<noteq> Inl VersionError"
  by (simp add: save_def)

lemma never_ConcurrentModification:
  "fst (saveWithOptimisticLocking db doc) \<noteq> Inl ConcurrentModification"
  by (simp add: saveWithOptimisticLocking_def save_def)

text \<open>Whenever the mover is ON_MISSION, both racing requests succeed with the same
  document.\<close>

lemma endMission_race_general:
  assumes "findById db i = Some m" and "state m = ON_MISSION" and "validateMover m"
  shows "fst (endMission_race db nowA nowB i) = (Inr (endMissionUpdate m), Inr (endMissionUpdate m))"
proof -
  let ?doc = "endMissionUpdate m"
  have id: "mover_id m = i" using assms(1) by (simp add: findById_SomeD)
  have did: "mover_id ?doc = i" using id by (simp add: endMissionUpdate_def)
  have v: "validateMover ?doc" using assms(3) by (rule validateMover_endMissionUpdate)
  have p: "endMission_prepare db i = Inr (m, ?doc)"
    using assms(1,2)
    by (simp add: endMission_prepare_def verifyMoverExists_def validateTransition_eq transition_table_def)
  let ?db1 = "db\<lparr>movers := map (\<lambda>x. if mover_id x = i then ?doc else x) (movers db)\<rparr>"
  have f0: "findById db (mover_id ?doc) \<noteq> None" using assms(1) did by simp
  have s1: "saveWithOptimisticLocking db ?doc = (Inr (Some ?doc), ?db1)"
    using save_ok[OF f0 v] did by simp
  have f1: "\<And>t. findById (createActivityLog ?db1 nowA i ACT_MISSION_ENDED ON_MISSION RESTING t) (mover_id ?doc) \<noteq> None"
    using findById_after_save[OF assms(1) did] did by (simp add: findById_createActivityLog)
  show ?thesis
    using save_ok[OF f1 v] assms(2)
    by (simp add: endMission_race_def p endMission_commit_def s1 Let_def)
       (simp add: endMissionUpdate_def)
qed

text \<open>
  Claim C8 at a failing input. Two endMission requests for a mover that is ON_MISSION
  with no completed mission, both reading before either saves: both succeed, both
  report completedMissions = 1, and two MISSION_ENDED entries are logged. The second
  save is not conditioned on what the request read and overwrites silently; no
  concurrency error is raised.
\<close>

theorem endMission_race_both_succeed:
  "fst (endMission_race (moverDb 100 ON_MISSION [featherId] (1/2)) 5 6 ''m1'') =
     (Inr ((mover1 100 RESTING [] 0)\<lparr>completedMissions := 1\<rparr>),
      Inr ((mover1 100 RESTING [] 0)\<lparr>completedMissions := 1\<rparr>)) \<and>
   movers (snd (endMission_race (moverDb 100 ON_MISSION [featherId] (1/2)) 5 6 ''m1'')) =
     [(mover1 100 RESTING [] 0)\<lparr>completedMissions := 1\<rparr>] \<and>
   map (\<lambda>log. (activityType log, createdAt log, d_completedMissions (details log)))
       (activityLogs (snd (endMission_race (moverDb 100 ON_MISSION [featherId] (1/2)) 5 6 ''m1''))) =
     [(ACT_MISSION_ENDED, 5, Some 1), (ACT_MISSION_ENDED, 6, Some 1)]"
  by (simp add: endMission_race_def endMission_prepare_def endMission_commit_def eval_defs example_defs
      numbers)


end
